theory Spec2Isabelle
  imports Complex_Main "HOL-Library.AList"
begin

section \<open>JavaScript values used by the services\<close>

text \<open>
  A property that may be absent is an \<open>option\<close>: \<open>None\<close> is JavaScript's
  \<open>undefined\<close>. The operator \<open>a || b\<close> on strings yields \<open>b\<close> when \<open>a\<close> is
  \<open>undefined\<close> or the empty string.
\<close>

definition truthy :: "string option \<Rightarrow> bool" where
  "truthy s = (case s of None \<Rightarrow> False | Some t \<Rightarrow> t \<noteq> [])"

definition js_or :: "string option \<Rightarrow> string option \<Rightarrow> string option" where
  "js_or a b = (if truthy a then a else b)"

definition show_opt :: "string option \<Rightarrow> string" where
  "show_opt s = (case s of None \<Rightarrow> ''undefined'' | Some t \<Rightarrow> t)"

text \<open>
  A JavaScript value as the database drivers hand it over: \<open>null\<close>, \<open>undefined\<close>,
  a boolean, a number or a bigint (each carried by its \<open>String(...)\<close> text), a string,
  or an object such as a \<open>Date\<close> or a JSON column (carried by its
  \<open>JSON.stringify\<close> text). A row is an object whose properties are the columns, in
  enumeration order.
\<close>

datatype jsval = JNull | JUndefined | JBool bool | JNum string | JBigInt string
  | JStr string | JObject string

type_synonym row = "(string \<times> jsval) list"

text \<open>The truthiness \<open>a || b\<close> and \<open>if (a)\<close> test on a value.\<close>

definition js_truthy :: "jsval \<Rightarrow> bool" where
  "js_truthy v =
     (case v of
        JNull \<Rightarrow> False | JUndefined \<Rightarrow> False | JBool b \<Rightarrow> b
      | JNum n \<Rightarrow> n \<noteq> ''0'' \<and> n \<noteq> ''NaN''
      | JBigInt n \<Rightarrow> n \<noteq> ''0''
      | JStr t \<Rightarrow> t \<noteq> []
      | JObject j \<Rightarrow> True)"

text \<open>\<open>row[col]\<close>: the value of a property, \<open>undefined\<close> when the row has none.\<close>

definition get_prop :: "row \<Rightarrow> string \<Rightarrow> jsval" where
  "get_prop r col = (case map_of r col of None \<Rightarrow> JUndefined | Some v \<Rightarrow> v)"

section \<open>Job Tracker: backupStatusService.js and uploadStatusService.js\<close>

text \<open>
  The status object handed to \<open>setBackupStatus\<close> / \<open>setUploadStatus\<close>. Every
  property is optional in the source.
\<close>

record status_patch =
  p_status :: "string option"
  p_type :: "string option"
  p_backendName :: "string option"
  p_tableName :: "string option"
  p_progress :: "int option"
  p_message :: "string option"
  p_result :: "string option"
  p_error :: "string option"
  p_isAutomatic :: "bool option"

text \<open>A row of \<open>backup_statuses\<close> / \<open>upload_statuses\<close> (migration 20260117111919_3).\<close>

record job =
  j_status :: string
  j_type :: string
  j_backendName :: string
  j_tableName :: "string option"
  j_progress :: int
  j_message :: "string option"
  j_result :: "string option"
  j_error :: "string option"
  j_isAutomatic :: bool
  j_createdAt :: int
  j_updatedAt :: int

text \<open>
  The Prisma delegate \<open>prisma.backupStatus\<close> (or \<open>prisma.uploadStatus\<close>):
  absent from the generated client, present over a table that was never migrated
  (every call throws P2021), or present over a table keyed by the unique \<open>jobId\<close>.
\<close>

datatype delegate = ModelMissing | TableMissing | Table "string \<rightharpoonup> job"

datatype outcome = Returned | Threw string

definition rows_of :: "delegate \<Rightarrow> string \<rightharpoonup> job" where
  "rows_of d = (case d of Table t \<Rightarrow> t | _ \<Rightarrow> Map.empty)"

text \<open>\<open>prisma.X.update\<close> with the sparse data object built by the source.\<close>

definition update_job :: "int \<Rightarrow> bool \<Rightarrow> status_patch \<Rightarrow> job \<Rightarrow> job" where
  "update_job now with_auto p j =
     j\<lparr> j_status := (case p_status p of None \<Rightarrow> j_status j | Some s \<Rightarrow> s),
        j_progress := (case p_progress p of None \<Rightarrow> j_progress j | Some n \<Rightarrow> n),
        j_message := (case p_message p of None \<Rightarrow> j_message j | Some m \<Rightarrow> Some m),
        j_result := (case p_result p of None \<Rightarrow> j_result j | Some r \<Rightarrow> Some r),
        j_error := (case p_error p of None \<Rightarrow> j_error j | Some e \<Rightarrow> Some e),
        j_isAutomatic := (if with_auto then (case p_isAutomatic p of None \<Rightarrow> j_isAutomatic j | Some b \<Rightarrow> b)
                          else j_isAutomatic j),
        j_updatedAt := now \<rparr>"

text \<open>
  \<open>prisma.X.create\<close>: \<open>status\<close> is a required column without default, so an
  undefined status is refused by the client before anything is written.
\<close>

definition create_job ::
  "int \<Rightarrow> status_patch \<Rightarrow> string \<Rightarrow> string \<Rightarrow> string option \<Rightarrow> bool \<Rightarrow> string + job" where
  "create_job now p ty bn tn auto =
     (case p_status p of
        None \<Rightarrow> Inl ''Argument status is missing''
      | Some s \<Rightarrow> Inr \<lparr> j_status = s, j_type = ty, j_backendName = bn, j_tableName = tn,
            j_progress = (case p_progress p of None \<Rightarrow> 0 | Some n \<Rightarrow> n),
            j_message = (if truthy (p_message p) then p_message p else None),
            j_result = (if truthy (p_result p) then p_result p else None),
            j_error = (if truthy (p_error p) then p_error p else None),
            j_isAutomatic = auto, j_createdAt = now, j_updatedAt = now \<rparr>)"

text \<open>The body of the \<open>try\<close> block of \<open>setBackupStatus\<close> (lines 8-58).\<close>

definition setBackupStatus_try :: "int \<Rightarrow> string \<Rightarrow> status_patch \<Rightarrow> delegate \<Rightarrow> string + delegate" where
  "setBackupStatus_try now jobId p d =
     (case d of
        ModelMissing \<Rightarrow> Inr d
      | TableMissing \<Rightarrow> Inl ''The table does not exist in the current database''
      | Table t \<Rightarrow>
          (let existingRecord = t jobId;
               ty = js_or (p_type p) (map_option j_type existingRecord);
               backendName = js_or (p_backendName p) (map_option j_backendName existingRecord)
           in if existingRecord = None \<and> (\<not> truthy ty \<or> \<not> truthy backendName) then
                Inl (''Missing required fields for new record: type='' @ show_opt ty
                     @ '', backendName='' @ show_opt backendName)
              else (case existingRecord of
                Some j \<Rightarrow> Inr (Table (t(jobId \<mapsto> update_job now True p j)))
              | None \<Rightarrow>
                  (case create_job now p (show_opt ty) (show_opt backendName) None
                          (case p_isAutomatic p of None \<Rightarrow> False | Some b \<Rightarrow> b) of
                     Inl e \<Rightarrow> Inl e
                   | Inr j \<Rightarrow> Inr (Table (t(jobId \<mapsto> j)))))))"

text \<open>
  \<open>setBackupStatus\<close>: the \<open>catch\<close> logs and does not rethrow
  (``Don't throw - allow background process to continue'').
\<close>

definition setBackupStatus :: "int \<Rightarrow> string \<Rightarrow> status_patch \<Rightarrow> delegate \<Rightarrow> delegate \<times> outcome" where
  "setBackupStatus now jobId p d =
     (case setBackupStatus_try now jobId p d of
        Inl e \<Rightarrow> (d, Returned)
      | Inr d' \<Rightarrow> (d', Returned))"

text \<open>The body of the \<open>try\<close> block of \<open>setUploadStatus\<close> (part_009, lines 8-54).\<close>

definition setUploadStatus_try :: "int \<Rightarrow> string \<Rightarrow> status_patch \<Rightarrow> delegate \<Rightarrow> string + delegate" where
  "setUploadStatus_try now jobId p d =
     (case d of
        ModelMissing \<Rightarrow> Inr d
      | TableMissing \<Rightarrow> Inl ''The table does not exist in the current database''
      | Table t \<Rightarrow>
          (let existingRecord = t jobId;
               ty = js_or (p_type p) (map_option j_type existingRecord);
               backendName = js_or (p_backendName p) (map_option j_backendName existingRecord);
               tableName = js_or (p_tableName p) (case existingRecord of None \<Rightarrow> None | Some j \<Rightarrow> j_tableName j)
           in (case existingRecord of
                Some j \<Rightarrow> Inr (Table (t(jobId \<mapsto> update_job now False p j)))
              | None \<Rightarrow>
                  if \<not> truthy ty \<or> \<not> truthy backendName then
                    Inl (''Missing required fields: type='' @ show_opt ty
                         @ '', backendName='' @ show_opt backendName)
                  else (case create_job now p (show_opt ty) (show_opt backendName)
                               (if truthy tableName then tableName else None) False of
                     Inl e \<Rightarrow> Inl e
                   | Inr j \<Rightarrow> Inr (Table (t(jobId \<mapsto> j)))))))"

text \<open>\<open>setUploadStatus\<close>: the \<open>catch\<close> logs and rethrows.\<close>

definition setUploadStatus :: "int \<Rightarrow> string \<Rightarrow> status_patch \<Rightarrow> delegate \<Rightarrow> delegate \<times> outcome" where
  "setUploadStatus now jobId p d =
     (case setUploadStatus_try now jobId p d of
        Inl e \<Rightarrow> (d, Threw e)
      | Inr d' \<Rightarrow> (d', Returned))"

subsection \<open>Retention sweep\<close>

text \<open>
  \<open>const cutoffDate = new Date(); cutoffDate.setDate(cutoffDate.getDate() - cleanupDays)\<close>.
  A \<open>Date\<close> holds a time value in milliseconds since the epoch, and \<open>setDate\<close> works on
  the local calendar. With \<open>t\<close> the time value, the language standard computes

    \<^item> the local time \<open>t + LocalTZA(t, true)\<close>,
    \<^item> the same time of day \<open>getDate() - cleanupDays\<close> days into the month, which is the
      local time moved back by \<open>cleanupDays\<close> days of 86400000 ms each,
    \<^item> the instant of that local time, \<open>local - LocalTZA(local, false)\<close>,
    \<^item> and \<open>TimeClip\<close>: a result further than 8640000000000000 ms from the epoch is
      \<open>NaN\<close>, an invalid date.

  The two offsets of the host's time zone are data of the environment. Between two
  instants on different sides of a daylight-saving change they differ, so the cutoff is
  not always a whole number of days before now.
\<close>

record timezone =
  offset_at_instant :: "int \<Rightarrow> int"
  offset_at_local :: "int \<Rightarrow> int"

definition msPerDay :: int where
  "msPerDay = 86400000"

definition maxTimeValue :: int where
  "maxTimeValue = 8640000000000000"

definition TimeClip :: "int \<Rightarrow> int option" where
  "TimeClip u = (if \<bar>u\<bar> \<le> maxTimeValue then Some u else None)"

definition cutoffDate :: "timezone \<Rightarrow> int \<Rightarrow> int \<Rightarrow> int option" where
  "cutoffDate zone now cleanupDays =
     (let localNow = now + offset_at_instant zone now;
          newDate = localNow - cleanupDays * msPerDay
      in TimeClip (newDate - offset_at_local zone newDate))"

text \<open>The \<open>where\<close> filter of \<open>deleteMany\<close>.\<close>

definition sweep_matches :: "int \<Rightarrow> job \<Rightarrow> bool" where
  "sweep_matches cutoff j = (j_createdAt j < cutoff \<and> j_status j \<in> set [''completed'', ''failed''])"

definition deleteMany :: "int \<Rightarrow> (string \<rightharpoonup> job) \<Rightarrow> (string \<rightharpoonup> job)" where
  "deleteMany cutoff t = (\<lambda>k. case t k of None \<Rightarrow> None
                                | Some j \<Rightarrow> if sweep_matches cutoff j then None else Some j)"

text \<open>
  \<open>cleanupOldStatuses\<close> and \<open>cleanupOldUploadStatuses\<close> have the same body.
  \<open>cleanupDays\<close> is the value of \<open>parseInt(process.env.X || '7')\<close>, an integer;
  \<open>None\<close> is \<open>NaN\<close> or an infinity, which makes the cutoff an invalid date, as does
  a setting that moves the cutoff out of the range of \<open>Date\<close>. \<open>deleteMany\<close> refuses
  an invalid date; every thrown error is caught and the function returns 0, with
  nothing deleted. The returned count is left out.
\<close>

definition cleanupOldStatuses :: "timezone \<Rightarrow> int \<Rightarrow> int option \<Rightarrow> delegate \<Rightarrow> delegate" where
  "cleanupOldStatuses zone now cleanupDays d =
     (case d of
        ModelMissing \<Rightarrow> d
      | TableMissing \<Rightarrow> d
      | Table t \<Rightarrow> (case cleanupDays of
                      None \<Rightarrow> d
                    | Some n \<Rightarrow> (case cutoffDate zone now n of
                                  None \<Rightarrow> d
                                | Some cutoff \<Rightarrow> Table (deleteMany cutoff t))))"

text \<open>Two zones for the examples: one at a fixed offset of zero, and one that is an
  hour ahead of it from the instant 1000000000000 on (clocks put forward).\<close>

definition utc_zone :: timezone where
  "utc_zone = \<lparr> offset_at_instant = (\<lambda>t. 0), offset_at_local = (\<lambda>t. 0) \<rparr>"

definition summer_zone :: timezone where
  "summer_zone = \<lparr> offset_at_instant = (\<lambda>t. if t < 1000000000000 then 0 else 3600000),
                   offset_at_local = (\<lambda>t. if t < 1000000000000 then 0 else 3600000) \<rparr>"

definition job_at :: "string \<Rightarrow> int \<Rightarrow> job" where
  "job_at status created =
     \<lparr> j_status = status, j_type = ''database'', j_backendName = ''A'', j_tableName = None,
       j_progress = 10, j_message = None, j_result = None, j_error = None,
       j_isAutomatic = False, j_createdAt = created, j_updatedAt = created \<rparr>"

definition sweep_store :: "string \<rightharpoonup> job" where
  "sweep_store = [''old_done'' \<mapsto> job_at ''completed'' 0,
                  ''old_failed'' \<mapsto> job_at ''failed'' 0,
                  ''old_running'' \<mapsto> job_at ''processing'' 0,
                  ''new_done'' \<mapsto> job_at ''completed'' 999999999]"

section \<open>Comparator: comparisonService.js\<close>

text \<open>
  \<open>Math.round\<close> rounds to the nearest integer, ties towards plus infinity.
\<close>

definition js_round :: "real \<Rightarrow> int" where
  "js_round x = \<lfloor>x + 1 / 2\<rfloor>"

text \<open>
  Lines 134-138. The counts are row counts (natural numbers). In the source
  \<open>backupCount / remoteCount\<close> and the product with 100 are binary64 operations, each the
  exact result rounded to a representable number; that rounding is the parameter
  \<open>rnd\<close>.
\<close>

definition progress_of :: "(real \<Rightarrow> real) \<Rightarrow> nat \<Rightarrow> nat \<Rightarrow> int" where
  "progress_of rnd backupCount remoteCount =
     (if remoteCount > 0 then js_round (rnd (rnd (real backupCount / real remoteCount) * 100))
      else if backupCount > 0 then 100 else 0)"

text \<open>Lines 141-150.\<close>

definition status_of :: "int \<Rightarrow> string" where
  "status_of progress =
     (if progress = 100 then ''fully_backed_up''
      else if progress > 0 then ''partially_backed_up''
      else ''not_backed_up'')"

subsection \<open>findMissingRecords\<close>

text \<open>
  \<open>new Set(list)\<close> iterated: the distinct elements in order of first occurrence.
\<close>

definition js_set :: "'a list \<Rightarrow> 'a list" where
  "js_set xs = rev (remdups (rev xs))"

record missing_data =
  md_ids :: "string list"
  md_records :: "row list"
  md_totalMissing :: nat

text \<open>Lines 355-369: the conversion of a fetched row for JSON serialisation.\<close>

definition convertRow :: "row \<Rightarrow> row" where
  "convertRow r = map (\<lambda>(k, v). (k, case v of JBigInt n \<Rightarrow> JStr n
                                           | JUndefined \<Rightarrow> JNull
                                           | _ \<Rightarrow> v)) r"

text \<open>
  \<open>findMissingRecords\<close> (lines 295-392). What the two stores answer is the input:
  \<^item> \<open>connect_ok\<close>: \<open>client.connect()\<close> succeeds;
  \<^item> \<open>remoteIdsResult\<close>, \<open>backupIdsResult\<close>: the \<open>String(id)\<close> of every row returned by
    \<open>SELECT id FROM ... ORDER BY id\<close>, or \<open>None\<close> when the query throws (no \<open>id\<close>
    column, for instance);
  \<^item> \<open>fetch ids\<close>: the rows returned by the full-record query built for \<open>ids\<close>
    (with its \<open>LIMIT 100\<close>), or \<open>None\<close> when that query throws.
\<close>

definition findMissingRecords ::
  "bool \<Rightarrow> string list option \<Rightarrow> string list option \<Rightarrow> (string list \<Rightarrow> row list option) \<Rightarrow> missing_data" where
  "findMissingRecords connect_ok remoteIdsResult backupIdsResult fetch =
     (case (connect_ok, remoteIdsResult, backupIdsResult) of
        (True, Some rs, Some bs) \<Rightarrow>
          (let remoteIds = js_set rs;
               backupIds = js_set bs;
               missingIds = filter (\<lambda>i. i \<notin> set backupIds) remoteIds;
               missingRecords =
                 (if length missingIds > 0 then
                    (let idsToFetch = take 100 missingIds in
                     case fetch idsToFetch of
                       Some rows \<Rightarrow> map convertRow rows
                     | None \<Rightarrow> map (\<lambda>i. [(''id'', JStr i)]) (take 100 missingIds))
                  else [])
           in \<lparr> md_ids = missingIds, md_records = missingRecords,
                md_totalMissing = length missingIds \<rparr>)
      | _ \<Rightarrow> \<lparr> md_ids = [], md_records = [], md_totalMissing = 0 \<rparr>)"

subsection \<open>One remote table of compareBackupWithRemote\<close>

record table_entry =
  e_tableName :: string
  e_backupTableName :: "string option"
  e_remoteCount :: nat
  e_backupCount :: nat
  e_difference :: int
  e_progress :: int
  e_status :: string
  e_missingRecordsCount :: nat
  e_missingRecordsIds :: "string list"
  e_missingRecords :: "row list"

text \<open>
  The body of the loop over the remote tables (lines 109-224), for one table.
  \<open>existsInBackup\<close> is \<open>backupTableNames.includes(backupTableName)\<close>;
  \<open>countResult\<close> is the mirror's \<open>COUNT(*)\<close>, or \<open>None\<close> when that query throws.
\<close>

definition compareTable ::
  "(real \<Rightarrow> real) \<Rightarrow> string \<Rightarrow> nat \<Rightarrow> bool \<Rightarrow> nat option \<Rightarrow>
   bool \<Rightarrow> string list option \<Rightarrow> string list option \<Rightarrow> (string list \<Rightarrow> row list option) \<Rightarrow> table_entry" where
  "compareTable rnd remoteTableName remoteCount existsInBackup countResult
                connect_ok remoteIdsResult backupIdsResult fetch =
     (let backupTableName = ''backup_'' @ remoteTableName in
      if existsInBackup then
        (case countResult of
           Some backupCount \<Rightarrow>
             (let progress = progress_of rnd backupCount remoteCount;
                  tableStatus = status_of progress
              in if remoteCount > backupCount \<and> remoteCount > 0 then
                   (let missingData = findMissingRecords connect_ok remoteIdsResult backupIdsResult fetch
                    in \<lparr> e_tableName = remoteTableName, e_backupTableName = Some backupTableName,
                         e_remoteCount = remoteCount, e_backupCount = backupCount,
                         e_difference = int remoteCount - int backupCount,
                         e_progress = progress, e_status = tableStatus,
                         e_missingRecordsCount = md_totalMissing missingData,
                         e_missingRecordsIds = take 100 (md_ids missingData),
                         e_missingRecords = take 100 (md_records missingData) \<rparr>)
                 else
                   \<lparr> e_tableName = remoteTableName, e_backupTableName = Some backupTableName,
                     e_remoteCount = remoteCount, e_backupCount = backupCount,
                     e_difference = int remoteCount - int backupCount,
                     e_progress = progress, e_status = tableStatus,
                     e_missingRecordsCount = 0, e_missingRecordsIds = [], e_missingRecords = [] \<rparr>)
         | None \<Rightarrow>
             \<lparr> e_tableName = remoteTableName, e_backupTableName = Some backupTableName,
               e_remoteCount = remoteCount, e_backupCount = 0, e_difference = int remoteCount,
               e_progress = 0, e_status = ''error'',
               e_missingRecordsCount = 0, e_missingRecordsIds = [], e_missingRecords = [] \<rparr>)
      else
        \<lparr> e_tableName = remoteTableName, e_backupTableName = None,
          e_remoteCount = remoteCount, e_backupCount = 0, e_difference = int remoteCount,
          e_progress = 0, e_status = ''not_backed_up'',
          e_missingRecordsCount = 0, e_missingRecordsIds = [], e_missingRecords = [] \<rparr>)"

section \<open>File comparison: compareBackupFiles\<close>

text \<open>
  A file object of a folder structure, as \<open>getAllFiles\<close> and \<open>getLocalBackupFiles\<close>
  build it; every property may be absent. A node carries its files and its sub-folders,
  the latter in the order \<open>Object.keys\<close> enumerates them.
\<close>

record file_obj =
  f_name :: "string option"
  f_key :: "string option"
  f_size :: "int option"
  f_lastModified :: "string option"

datatype node = Node (n_files: "file_obj list") (n_folders: "(string \<times> node) list")

text \<open>The value stored in the \<open>Map\<close> by \<open>flattenFiles\<close>.\<close>

record flat_file =
  ff_key :: "string option"
  ff_name :: "string option"
  ff_size :: int
  ff_lastModified :: "string option"

text \<open>
  A JavaScript \<open>Map\<close>: an association list in insertion order; \<open>set\<close> on a key
  already present replaces the value in place (\<open>AList.update\<close>). A key is a
  \<open>string option\<close>, since \<open>file.name || file.key\<close> may be \<open>undefined\<close>.
\<close>

type_synonym file_map = "(string option \<times> flat_file) list"

definition name_or_key :: "file_obj \<Rightarrow> string option" where
  "name_or_key f = js_or (f_name f) (f_key f)"

definition file_key :: "string \<Rightarrow> file_obj \<Rightarrow> string option" where
  "file_key currentPath f =
     (if currentPath \<noteq> [] then Some (currentPath @ ''/'' @ show_opt (name_or_key f))
      else name_or_key f)"

definition add_file :: "string \<Rightarrow> file_obj \<Rightarrow> file_map \<Rightarrow> file_map" where
  "add_file currentPath f m =
     AList.update (file_key currentPath f)
       \<lparr> ff_key = file_key currentPath f,
         ff_name = name_or_key f,
         ff_size = (case f_size f of None \<Rightarrow> 0 | Some n \<Rightarrow> n),
         ff_lastModified = (if truthy (f_lastModified f) then f_lastModified f else None) \<rparr> m"

definition sub_path :: "string \<Rightarrow> string \<Rightarrow> string" where
  "sub_path currentPath folderName =
     (if currentPath \<noteq> [] then currentPath @ ''/'' @ folderName else folderName)"

text \<open>\<open>traverse\<close> (lines 1146-1169): the files of the node, then its sub-folders.\<close>

fun traverse :: "node \<Rightarrow> string \<Rightarrow> file_map \<Rightarrow> file_map"
  and traverse_folders :: "(string \<times> node) list \<Rightarrow> string \<Rightarrow> file_map \<Rightarrow> file_map" where
  "traverse (Node files folders) currentPath m =
     traverse_folders folders currentPath (fold (add_file currentPath) files m)"
| "traverse_folders [] currentPath m = m"
| "traverse_folders ((folderName, sub) # rest) currentPath m =
     traverse_folders rest currentPath (traverse sub (sub_path currentPath folderName) m)"

definition flattenFiles :: "node \<Rightarrow> file_map" where
  "flattenFiles structure = traverse structure [] []"

record missing_item =
  mi_key :: "string option"
  mi_name :: "string option"
  mi_size :: int
  mi_lastModified :: "string option"

record matching_item =
  ma_key :: "string option"
  ma_name :: "string option"
  ma_size :: int
  ma_bucketLastModified :: "string option"
  ma_localLastModified :: "string option"

record different_item =
  di_key :: "string option"
  di_name :: "string option"
  di_bucketSize :: int
  di_localSize :: int
  di_bucketLastModified :: "string option"
  di_localLastModified :: "string option"

record file_comparison =
  totalBucketFiles :: nat
  totalLocalFiles :: nat
  n_missingInLocal :: nat
  n_missingInBucket :: nat
  n_matchingFiles :: nat
  n_differentFiles :: nat
  missingInLocal :: "missing_item list"
  missingInBucket :: "missing_item list"
  matchingFiles :: "matching_item list"
  differentFiles :: "different_item list"

text \<open>The body of the loop over the bucket map (lines 1193-1229).\<close>

definition check_bucket_file ::
  "file_map \<Rightarrow> string option \<times> flat_file \<Rightarrow> file_comparison \<Rightarrow> file_comparison" where
  "check_bucket_file localFileMap e c =
     (case e of (key, bucketFile) \<Rightarrow>
        (case map_of localFileMap key of
           None \<Rightarrow>
             c\<lparr> n_missingInLocal := n_missingInLocal c + 1,
                missingInLocal := missingInLocal c @
                  [\<lparr> mi_key = key, mi_name = ff_name bucketFile, mi_size = ff_size bucketFile,
                     mi_lastModified = ff_lastModified bucketFile \<rparr>] \<rparr>
         | Some localFile \<Rightarrow>
             if ff_size bucketFile = ff_size localFile then
               c\<lparr> n_matchingFiles := n_matchingFiles c + 1,
                  matchingFiles := matchingFiles c @
                    [\<lparr> ma_key = key, ma_name = ff_name bucketFile, ma_size = ff_size bucketFile,
                       ma_bucketLastModified = ff_lastModified bucketFile,
                       ma_localLastModified = ff_lastModified localFile \<rparr>] \<rparr>
             else
               c\<lparr> n_differentFiles := n_differentFiles c + 1,
                  differentFiles := differentFiles c @
                    [\<lparr> di_key = key, di_name = ff_name bucketFile,
                       di_bucketSize = ff_size bucketFile, di_localSize = ff_size localFile,
                       di_bucketLastModified = ff_lastModified bucketFile,
                       di_localLastModified = ff_lastModified localFile \<rparr>] \<rparr>))"

text \<open>The body of the loop over the local map (lines 1232-1244).\<close>

definition check_local_file ::
  "file_map \<Rightarrow> string option \<times> flat_file \<Rightarrow> file_comparison \<Rightarrow> file_comparison" where
  "check_local_file bucketFileMap e c =
     (case e of (key, localFile) \<Rightarrow>
        if map_of bucketFileMap key = None then
          c\<lparr> n_missingInBucket := n_missingInBucket c + 1,
             missingInBucket := missingInBucket c @
               [\<lparr> mi_key = key, mi_name = ff_name localFile, mi_size = ff_size localFile,
                  mi_lastModified = ff_lastModified localFile \<rparr>] \<rparr>
        else c)"

text \<open>
  \<open>compareBackupFiles\<close> from the two folder structures on (lines 1173-1246); the
  listing of the bucket and the scan of the local directory are its inputs.
\<close>

definition compareFiles :: "node \<Rightarrow> node \<Rightarrow> file_comparison" where
  "compareFiles bucketFiles localFiles =
     (let bucketFileMap = flattenFiles bucketFiles;
          localFileMap = flattenFiles localFiles;
          comparison = \<lparr> totalBucketFiles = length bucketFileMap,
                         totalLocalFiles = length localFileMap,
                         n_missingInLocal = 0, n_missingInBucket = 0,
                         n_matchingFiles = 0, n_differentFiles = 0,
                         missingInLocal = [], missingInBucket = [],
                         matchingFiles = [], differentFiles = [] \<rparr>
      in fold (check_local_file bucketFileMap) localFileMap
           (fold (check_bucket_file localFileMap) bucketFileMap comparison))"

section \<open>Plain-HTTP file listing: getAllFilesFromHttp\<close>

text \<open>
  What \<open>JSON.parse\<close> makes of a response body: it throws, it yields an array, or it
  yields some other value. The parser itself is a parameter of the model.
\<close>

datatype 'a parsed = NotJson | JsonArray "'a list" | JsonOther

text \<open>
  What Node delivers to the request, in order: the response head with its status code,
  a chunk of the body, the end of the response, a request error, or a period (in
  milliseconds) in which the socket stays idle.
\<close>

datatype http_event = Head nat | Data string | End | Error string | Idle nat

datatype 'a promise = Resolved "'a list" | Rejected string | Pending

text \<open>\<open>req.setTimeout(10000, ...)\<close> (line 118).\<close>

definition request_timeout_ms :: nat where
  "request_timeout_ms = 10000"

text \<open>
  The handlers of lines 95-121 run over the events; \<open>data\<close> is the text collected so
  far. The promise keeps its first settlement. The status code of the head is never
  read.
\<close>

fun run_request :: "(string \<Rightarrow> 'a parsed) \<Rightarrow> string \<Rightarrow> http_event list \<Rightarrow> 'a promise" where
  "run_request parse data [] = Pending"
| "run_request parse data (Head status # es) = run_request parse data es"
| "run_request parse data (Data chunk # es) = run_request parse (data @ chunk) es"
| "run_request parse data (End # es) =
     (case parse data of
        NotJson \<Rightarrow> Resolved []
      | JsonArray files \<Rightarrow> Resolved files
      | JsonOther \<Rightarrow> Resolved [])"
| "run_request parse data (Error msg # es) = Rejected (''Failed to fetch files: '' @ msg)"
| "run_request parse data (Idle ms # es) =
     (if ms \<ge> request_timeout_ms then Rejected ''Request timeout''
      else run_request parse data es)"

text \<open>
  \<open>getAllFilesFromHttp\<close> (lines 79-128). \<open>urlError\<close> is the message of the
  exception thrown by \<open>new URL(bucketUrl)\<close>, if it throws.
\<close>

definition getAllFilesFromHttp ::
  "(string \<Rightarrow> 'a parsed) \<Rightarrow> string option \<Rightarrow> http_event list \<Rightarrow> 'a promise" where
  "getAllFilesFromHttp parse urlError events =
     (case urlError of
        Some msg \<Rightarrow> Rejected (''Invalid bucket URL: '' @ msg)
      | None \<Rightarrow> run_request parse [] events)"

text \<open>
  Vocabulary for the properties: an event after which the request is still under way
  (the head, a chunk of the body, an idle period shorter than the timeout), and the text
  an event adds to the collected body.
\<close>

fun under_way :: "http_event \<Rightarrow> bool" where
  "under_way (Head status) = True"
| "under_way (Data chunk) = True"
| "under_way (Idle ms) = (ms < request_timeout_ms)"
| "under_way End = False"
| "under_way (Error msg) = False"

fun chunk_of :: "http_event \<Rightarrow> string" where
  "chunk_of (Data chunk) = chunk"
| "chunk_of e = []"

definition body_of :: "http_event list \<Rightarrow> string" where
  "body_of events = concat (map chunk_of events)"

definition one_file_parser :: "string \<Rightarrow> nat parsed" where
  "one_file_parser body = (if body = ''[1]'' then JsonArray [1] else NotJson)"

section \<open>Row Reconciler, upload direction: uploadTableRecords\<close>

text \<open>
  The remote table as the function sees it: its columns in \<open>information_schema\<close>
  (none when the table does not exist), the first attribute of its primary-key index
  if it has one, and its rows, each under the value it holds in the conflict column.
  The conflict column is the primary key or, for a table without one, the column
  \<open>id\<close> (line 53). A primary-key column never holds \<open>NULL\<close>; the column \<open>id\<close> of a
  table without a primary key may (a unique index admits any number of rows with
  \<open>NULL\<close>), which \<open>rt_id_nullable\<close> records. Rows with \<open>NULL\<close> in the conflict column
  are kept under \<open>JNull\<close>.
\<close>

record remote_table =
  rt_columns :: "string list"
  rt_pk :: "string option"
  rt_id_nullable :: bool
  rt_rows :: "(jsval \<times> row) list"

datatype remote = Unreachable string | Remote remote_table

definition accepts_null_key :: "remote_table \<Rightarrow> bool" where
  "accepts_null_key t = (rt_pk t = None \<and> rt_id_nullable t)"

text \<open>
  What PostgreSQL and the driver decide and the function cannot see is a parameter:

    \<^item> \<open>refuse t cols\<close> is the error with which the server refuses the
      \<open>INSERT ... ON CONFLICT\<close> statement for these columns in this state of the table
      (a type error, a violated constraint, an unknown column, no unique index on the
      conflict column);
    \<^item> \<open>default_key t\<close> is the value the server generates for the conflict column when
      the statement does not supply it (\<open>None\<close>: the column has no default);
    \<^item> \<open>readback v\<close> is the JavaScript value the driver makes of the stored key \<open>v\<close>
      in the \<open>RETURNING\<close> row, which the function sends back as the parameter of the
      presence test (a timestamp, for one, comes back cut to milliseconds);
    \<^item> \<open>check_error t v\<close> is the error with which the presence test fails, if it does.
\<close>

record pg =
  refuse :: "remote_table \<Rightarrow> row \<Rightarrow> string option"
  default_key :: "remote_table \<Rightarrow> jsval option"
  readback :: "jsval \<Rightarrow> jsval"
  check_error :: "remote_table \<Rightarrow> jsval \<Rightarrow> string option"

text \<open>Lines 63-68.\<close>

definition cleanRecord :: "row \<Rightarrow> row" where
  "cleanRecord record =
     filter (\<lambda>(k, v). k \<noteq> ''backup_created_at'' \<and> k \<noteq> ''backup_updated_at'') record"

definition recordColumns :: "row \<Rightarrow> row" where
  "recordColumns clean = filter (\<lambda>(k, v). v \<noteq> JUndefined) clean"

text \<open>\<open>DO UPDATE SET "c" = EXCLUDED."c"\<close> for every column of the statement.\<close>

definition merge_row :: "row \<Rightarrow> row \<Rightarrow> row" where
  "merge_row old cols = fold (\<lambda>(c, v). AList.update c v) cols old"

text \<open>The driver sends \<open>null\<close> and \<open>undefined\<close> as \<open>NULL\<close>.\<close>

definition is_null :: "jsval \<Rightarrow> bool" where
  "is_null v = (v = JNull \<or> v = JUndefined)"

text \<open>The value the new row holds in the conflict column.\<close>

definition conflict_key :: "pg \<Rightarrow> string \<Rightarrow> remote_table \<Rightarrow> row \<Rightarrow> jsval" where
  "conflict_key db primaryKey t cols =
     (case map_of cols primaryKey of
        Some v \<Rightarrow> v
      | None \<Rightarrow> (case default_key db t of Some v \<Rightarrow> v | None \<Rightarrow> JNull))"

text \<open>
  The statement of lines 72-79 with its \<open>RETURNING\<close> rows. With a key that is not
  \<open>NULL\<close> the row is inserted under its key or, when a row with that key exists, that
  row is overwritten in the columns of the statement; the key comes back as the driver
  reads it. A \<open>NULL\<close> key conflicts with no row: where the column admits it, the row is
  added to the table, on every execution, and \<open>null\<close> comes back; where it does not,
  the statement fails.
\<close>

definition insert_on_conflict ::
  "pg \<Rightarrow> string \<Rightarrow> remote_table \<Rightarrow> row \<Rightarrow> string + (remote_table \<times> jsval list)" where
  "insert_on_conflict db primaryKey t cols =
     (case refuse db t cols of
        Some msg \<Rightarrow> Inl msg
      | None \<Rightarrow>
          (let key = conflict_key db primaryKey t cols in
           if is_null key then
             (if accepts_null_key t then
                Inr (t\<lparr> rt_rows := rt_rows t @ [(JNull, AList.update primaryKey JNull cols)] \<rparr>,
                     [JNull])
              else Inl ''null value in the conflict column violates not-null constraint'')
           else
             Inr (t\<lparr> rt_rows :=
                      AList.update key
                        (case map_of (rt_rows t) key of
                           None \<Rightarrow> AList.update primaryKey key cols
                         | Some old \<Rightarrow> merge_row old cols)
                        (rt_rows t) \<rparr>,
                  [readback db key])))"

text \<open>
  \<open>SELECT COUNT(*) ... WHERE "primaryKey" = $1\<close> (line 83), with the returned key as
  the parameter. In SQL the comparison with \<open>NULL\<close> holds of no row.
\<close>

definition count_key :: "remote_table \<Rightarrow> jsval \<Rightarrow> nat" where
  "count_key t v = (if is_null v then 0 else length (filter (\<lambda>e. fst e = v) (rt_rows t)))"

record upload_state =
  us_uploaded :: nat
  us_matched :: nat
  us_errors :: "(jsval \<times> string) list"
  us_table :: remote_table

text \<open>\<open>record[primaryKey] || 'unknown'\<close> of the \<open>catch\<close> block (line 94).\<close>

definition error_label :: "string \<Rightarrow> row \<Rightarrow> jsval" where
  "error_label primaryKey record =
     (if js_truthy (get_prop record primaryKey) then get_prop record primaryKey
      else JStr ''unknown'')"

text \<open>
  The body of the inner loop (lines 61-97) for one record. An error of the presence test
  is caught like one of the statement, after the row has been written.
\<close>

definition upload_record :: "pg \<Rightarrow> string \<Rightarrow> row \<Rightarrow> upload_state \<Rightarrow> upload_state" where
  "upload_record db primaryKey record st =
     (case insert_on_conflict db primaryKey (us_table st) (recordColumns (cleanRecord record)) of
        Inl msg \<Rightarrow>
          st\<lparr> us_errors := us_errors st @ [(error_label primaryKey record, msg)] \<rparr>
      | Inr (t', returned) \<Rightarrow>
          (case returned of
             [] \<Rightarrow> st\<lparr> us_table := t' \<rparr>
           | key # others \<Rightarrow>
               (case check_error db t' key of
                  Some msg \<Rightarrow>
                    st\<lparr> us_table := t',
                        us_errors := us_errors st @ [(error_label primaryKey record, msg)] \<rparr>
                | None \<Rightarrow>
                    if count_key t' key > 0
                    then st\<lparr> us_table := t', us_matched := us_matched st + 1 \<rparr>
                    else st\<lparr> us_table := t', us_uploaded := us_uploaded st + 1 \<rparr>)))"

text \<open>\<open>pkResult.rows.length > 0 ? pkResult.rows[0].attname : 'id'\<close> (line 53).\<close>

definition conflict_column :: "remote_table \<Rightarrow> string" where
  "conflict_column t = (case rt_pk t of Some a \<Rightarrow> a | None \<Rightarrow> ''id'')"

text \<open>\<open>records.slice(i, i + n)\<close> for \<open>i = 0, n, 2n, ...\<close> below \<open>records.length\<close>.\<close>

definition batches :: "nat \<Rightarrow> 'a list \<Rightarrow> 'a list list" where
  "batches n xs = map (\<lambda>i. take n (drop (i * n) xs)) [0 ..< (length xs + n - 1) div n]"

record upload_result =
  totalRecords :: nat
  uploadedRecords :: nat
  matchedRecords :: nat
  errors :: "(jsval \<times> string) list"

text \<open>
  \<open>uploadTableRecords\<close> (lines 10-112). An empty \<open>errors\<close> list stands for the
  \<open>undefined\<close> the source returns in that case.
\<close>

definition uploadTableRecords ::
  "pg \<Rightarrow> remote \<Rightarrow> string \<Rightarrow> row list \<Rightarrow> string + (upload_result \<times> remote)" where
  "uploadTableRecords db r tableName records =
     (case r of
        Unreachable msg \<Rightarrow> Inl (''Failed to upload table records: '' @ msg)
      | Remote t \<Rightarrow>
          if records = [] then
            Inr (\<lparr> totalRecords = 0, uploadedRecords = 0, matchedRecords = 0, errors = [] \<rparr>, r)
          else if rt_columns t = [] then
            Inl (''Failed to upload table records: Table '' @ tableName
                 @ '' does not exist in remote database'')
          else
            (let primaryKey = conflict_column t;
                 batchSize = 100;
                 st = fold (\<lambda>batch st. fold (upload_record db primaryKey) batch st)
                        (batches batchSize records)
                        \<lparr> us_uploaded = 0, us_matched = 0, us_errors = [], us_table = t \<rparr>
             in Inr (\<lparr> totalRecords = length records, uploadedRecords = us_uploaded st,
                       matchedRecords = us_matched st, errors = us_errors st \<rparr>,
                     Remote (us_table st))))"

text \<open>
  Vocabulary for the properties: a record whose statement supplies a value other than
  \<open>NULL\<close> for the conflict column.
\<close>

definition carries_key :: "string \<Rightarrow> row \<Rightarrow> bool" where
  "carries_key primaryKey record =
     (case map_of (recordColumns (cleanRecord record)) primaryKey of
        Some v \<Rightarrow> \<not> is_null v
      | None \<Rightarrow> False)"

subsection \<open>Example data for the upload direction\<close>

text \<open>
  A server that refuses nothing and generates no keys, with a driver that reads every
  key back unchanged, and two mirror rows of a table with a primary key.
\<close>

definition plain_pg :: pg where
  "plain_pg = \<lparr> refuse = (\<lambda>t cols. None), default_key = (\<lambda>t. None),
                readback = (\<lambda>v. v), check_error = (\<lambda>t v. None) \<rparr>"

definition widget_records :: "row list" where
  "widget_records =
     [[(''id'', JNum ''1''), (''name'', JStr ''bolt''), (''backup_created_at'', JObject ''x'')],
      [(''id'', JNum ''2''), (''name'', JStr ''nut'')]]"

definition widgets_empty :: remote where
  "widgets_empty = Remote \<lparr> rt_columns = [''id'', ''name''], rt_pk = Some ''id'',
                            rt_id_nullable = False, rt_rows = [] \<rparr>"

definition widgets_uploaded :: remote where
  "widgets_uploaded =
     Remote \<lparr> rt_columns = [''id'', ''name''], rt_pk = Some ''id'', rt_id_nullable = False,
              rt_rows = [(JNum ''1'', [(''id'', JNum ''1''), (''name'', JStr ''bolt'')]),
                         (JNum ''2'', [(''id'', JNum ''2''), (''name'', JStr ''nut'')])] \<rparr>"

text \<open>
  A table without a primary key whose column \<open>id\<close> has a unique index and admits
  \<open>NULL\<close>, and a mirror of it that holds one row without an id and one with.
\<close>

definition note_records :: "row list" where
  "note_records = [[(''id'', JNull), (''body'', JStr ''memo'')],
                   [(''id'', JNum ''7''), (''body'', JStr ''list'')]]"

definition notes_table :: "(jsval \<times> row) list \<Rightarrow> remote" where
  "notes_table rows = Remote \<lparr> rt_columns = [''id'', ''body''], rt_pk = None,
                               rt_id_nullable = True, rt_rows = rows \<rparr>"

definition notes_after_one_run :: "(jsval \<times> row) list" where
  "notes_after_one_run = [(JNull, [(''id'', JNull), (''body'', JStr ''memo'')]),
                          (JNum ''7'', [(''id'', JNum ''7''), (''body'', JStr ''list'')])]"

definition notes_after_two_runs :: "(jsval \<times> row) list" where
  "notes_after_two_runs = [(JNull, [(''id'', JNull), (''body'', JStr ''memo'')]),
                           (JNum ''7'', [(''id'', JNum ''7''), (''body'', JStr ''list'')]),
                           (JNull, [(''id'', JNull), (''body'', JStr ''memo'')])]"

section \<open>Row Reconciler, backup direction: upsertTableData\<close>

subsection \<open>Column metadata and the mirror table's definition\<close>

record column =
  col_name :: string
  col_type :: string

text \<open>\<open>name.replace(/[^a-zA-Z0-9_]/g, '')\<close>.\<close>

definition sanitize :: "string \<Rightarrow> string" where
  "sanitize name =
     filter (\<lambda>c. c \<in> set ''abcdefghijklmnopqrstuvwxyzABCDEFGHIJKLMNOPQRSTUVWXYZ0123456789_'') name"

text \<open>\<open>toLowerCase\<close>, on the ASCII letters.\<close>

definition toLowerCase :: "string \<Rightarrow> string" where
  "toLowerCase name =
     map (\<lambda>c. case map_of (zip ''ABCDEFGHIJKLMNOPQRSTUVWXYZ'' ''abcdefghijklmnopqrstuvwxyz'') c of
                  Some l \<Rightarrow> l | None \<Rightarrow> c) name"

definition hasIdColumn :: "column list \<Rightarrow> bool" where
  "hasIdColumn columns = list_ex (\<lambda>col. toLowerCase (col_name col) = ''id'') columns"

datatype coltype = BIGINT | NUMERIC | BOOLEAN | TIMESTAMP | DATE | TEXT | SERIAL

text \<open>The type mapping of \<open>createTableIfNotExists\<close> (lines 233-245).\<close>

definition mirror_type :: "string \<Rightarrow> coltype" where
  "mirror_type ty =
     (if ty = ''integer'' \<or> ty = ''bigint'' then BIGINT
      else if ty = ''numeric'' \<or> ty = ''double precision'' then NUMERIC
      else if ty = ''boolean'' then BOOLEAN
      else if ty = ''timestamp'' \<or> ty = ''timestamp with time zone'' then TIMESTAMP
      else if ty = ''date'' then DATE
      else TEXT)"

text \<open>
  The columns of the table that \<open>CREATE TABLE IF NOT EXISTS\<close> defines (lines 250-269):
  a serial \<open>id\<close> first when the source has no id column, the sanitized source columns,
  the two bookkeeping timestamps.
\<close>

definition mirror_schema :: "column list \<Rightarrow> (string \<times> coltype) list" where
  "mirror_schema columns =
     (if hasIdColumn columns then [] else [(''id'', SERIAL)])
     @ map (\<lambda>col. (sanitize (col_name col), mirror_type (col_type col))) columns
     @ [(''backup_created_at'', TIMESTAMP), (''backup_updated_at'', TIMESTAMP)]"

subsection \<open>The local store\<close>

text \<open>
  A stored row gives, for the columns an \<open>INSERT\<close> has named, the stored text or
  \<open>None\<close> for \<open>NULL\<close>. The mirror table is the list of its rows in insertion order,
  and \<open>None\<close> as long as the table does not exist. When it exists it has the
  definition above for the column list at hand.

  What the server decides is a parameter: \<open>ddl_error columns\<close> is the error with which
  it refuses the \<open>CREATE TABLE\<close> statement built for these columns, if it does, and
  \<open>pg_input ty text\<close> is the result of reading a quoted literal as a value of a column
  type: an error message, or the value as stored and compared.
\<close>

type_synonym stored_row = "(string \<times> string option) list"

record local_pg =
  ddl_error :: "column list \<Rightarrow> string option"
  pg_input :: "coltype \<Rightarrow> string \<Rightarrow> string + string"

text \<open>A condition of the \<open>WHERE\<close> clause of the existence check.\<close>

datatype cond = IsNull string | Equals string string

definition stored_value :: "stored_row \<Rightarrow> string \<Rightarrow> string option" where
  "stored_value r c = (case map_of r c of None \<Rightarrow> None | Some v \<Rightarrow> v)"

text \<open>
  A condition is analysed against the table definition before any row is read: the
  column must exist and the literal must be readable in the column's type.
\<close>

definition eval_cond ::
  "local_pg \<Rightarrow> (string \<times> coltype) list \<Rightarrow> cond \<Rightarrow> string + (stored_row \<Rightarrow> bool)" where
  "eval_cond db schema c =
     (case c of
        IsNull col \<Rightarrow>
          (case map_of schema col of
             None \<Rightarrow> Inl (''column '' @ col @ '' does not exist'')
           | Some ty \<Rightarrow> Inr (\<lambda>r. stored_value r col = None))
      | Equals col text \<Rightarrow>
          (case map_of schema col of
             None \<Rightarrow> Inl (''column '' @ col @ '' does not exist'')
           | Some ty \<Rightarrow>
               (case pg_input db ty text of
                  Inl msg \<Rightarrow> Inl msg
                | Inr v \<Rightarrow> Inr (\<lambda>r. stored_value r col = Some v))))"

fun eval_conds ::
  "local_pg \<Rightarrow> (string \<times> coltype) list \<Rightarrow> cond list \<Rightarrow> string + (stored_row \<Rightarrow> bool)" where
  "eval_conds db schema [] = Inr (\<lambda>r. True)"
| "eval_conds db schema (c # cs) =
     (case eval_cond db schema c of
        Inl msg \<Rightarrow> Inl msg
      | Inr p \<Rightarrow> (case eval_conds db schema cs of
                    Inl msg \<Rightarrow> Inl msg
                  | Inr q \<Rightarrow> Inr (\<lambda>r. p r \<and> q r)))"

text \<open>\<open>SELECT id FROM "backup_t" WHERE ... LIMIT 1\<close>.\<close>

definition select_id_where ::
  "local_pg \<Rightarrow> (string \<times> coltype) list \<Rightarrow> cond list \<Rightarrow> stored_row list \<Rightarrow> string + stored_row list" where
  "select_id_where db schema conds rows =
     (if conds = [] then Inl ''syntax error at or near LIMIT''
      else if map_of schema ''id'' = None then Inl ''column id does not exist''
      else (case eval_conds db schema conds of
              Inl msg \<Rightarrow> Inl msg
            | Inr p \<Rightarrow> Inr (take 1 (filter p rows))))"

text \<open>\<open>INSERT INTO "backup_t" (columns) VALUES (values)\<close>.\<close>

fun read_values ::
  "local_pg \<Rightarrow> (string \<times> coltype) list \<Rightarrow> (string \<times> string option) list \<Rightarrow> string + stored_row" where
  "read_values db schema [] = Inr []"
| "read_values db schema ((col, v) # rest) =
     (case map_of schema col of
        None \<Rightarrow> Inl (''column '' @ col @ '' of relation does not exist'')
      | Some ty \<Rightarrow>
          (case (case v of None \<Rightarrow> Inr None
                         | Some text \<Rightarrow> (case pg_input db ty text of
                                          Inl msg \<Rightarrow> Inl msg | Inr w \<Rightarrow> Inr (Some w))) of
             Inl msg \<Rightarrow> Inl msg
           | Inr w \<Rightarrow> (case read_values db schema rest of
                         Inl msg \<Rightarrow> Inl msg
                       | Inr ws \<Rightarrow> Inr ((col, w) # ws))))"

definition insert_into ::
  "local_pg \<Rightarrow> (string \<times> coltype) list \<Rightarrow> (string \<times> string option) list \<Rightarrow> stored_row list
   \<Rightarrow> string + stored_row list" where
  "insert_into db schema assignments rows =
     (if assignments = [] then Inl ''syntax error at or near )''
      else (case read_values db schema assignments of
              Inl msg \<Rightarrow> Inl msg
            | Inr r \<Rightarrow> Inr (rows @ [r])))"

subsection \<open>upsertTableData\<close>

text \<open>
  The text a value contributes to a statement (lines 393-401 and 407-409): \<open>NULL\<close>
  for \<open>null\<close> and \<open>undefined\<close>, else the quoted \<open>JSON.stringify\<close> text of an object
  or \<open>String(...)\<close> text of a primitive. Doubling the quotes makes the server read
  back exactly that text.
\<close>

definition sql_text :: "jsval \<Rightarrow> string option" where
  "sql_text v =
     (case v of
        JNull \<Rightarrow> None | JUndefined \<Rightarrow> None
      | JObject j \<Rightarrow> Some j
      | JBool b \<Rightarrow> Some (if b then ''true'' else ''false'')
      | JNum n \<Rightarrow> Some n | JBigInt n \<Rightarrow> Some n | JStr t \<Rightarrow> Some t)"

definition columnNames :: "column list \<Rightarrow> string list" where
  "columnNames columns = map (\<lambda>col. sanitize (col_name col)) columns"

text \<open>Lines 387-402: the insert clause. \<open>row[col]\<close> is read under the sanitized name.\<close>

definition insertAssignments :: "column list \<Rightarrow> row \<Rightarrow> (string \<times> string option) list" where
  "insertAssignments columns r =
     map (\<lambda>col. (sanitize col, sql_text (get_prop r col))) (columnNames columns)"

text \<open>Lines 406-429: the existence check, by id when there is one, else by all columns.\<close>

definition checkQuery :: "column list \<Rightarrow> row \<Rightarrow> cond list" where
  "checkQuery columns r =
     (if hasIdColumn columns \<and> get_prop r ''id'' \<noteq> JNull \<and> get_prop r ''id'' \<noteq> JUndefined then
        [Equals ''id'' (case sql_text (get_prop r ''id'') of Some t \<Rightarrow> t | None \<Rightarrow> [])]
      else
        map (\<lambda>col. case sql_text (get_prop r col) of
                      None \<Rightarrow> IsNull (sanitize col)
                    | Some t \<Rightarrow> Equals (sanitize col) t) (columnNames columns))"

record backup_state =
  bs_inserted :: nat
  bs_skipped :: nat
  bs_rows :: "stored_row list"

text \<open>The body of the \<open>try\<close> block for one row (lines 382-454).\<close>

definition backup_row_try ::
  "local_pg \<Rightarrow> column list \<Rightarrow> row \<Rightarrow> backup_state \<Rightarrow> string + backup_state" where
  "backup_row_try db columns r st =
     (case select_id_where db (mirror_schema columns) (checkQuery columns r) (bs_rows st) of
        Inl msg \<Rightarrow> Inl msg
      | Inr existing \<Rightarrow>
          if length existing > 0 then Inr (st\<lparr> bs_skipped := bs_skipped st + 1 \<rparr>)
          else (case insert_into db (mirror_schema columns) (insertAssignments columns r) (bs_rows st) of
                  Inl msg \<Rightarrow> Inl msg
                | Inr rows' \<Rightarrow> Inr (st\<lparr> bs_rows := rows', bs_inserted := bs_inserted st + 1 \<rparr>)))"

text \<open>\<open>message.includes(needle)\<close>.\<close>

definition js_includes :: "string \<Rightarrow> string \<Rightarrow> bool" where
  "js_includes message needle =
     list_ex (\<lambda>i. take (length needle) (drop i message) = needle) [0 ..< Suc (length message)]"

text \<open>The test of the \<open>catch\<close> block (lines 458-462); an empty message is falsy.\<close>

definition is_duplicate_error :: "string \<Rightarrow> bool" where
  "is_duplicate_error message =
     (message \<noteq> [] \<and> (js_includes message ''duplicate'' \<or> js_includes message ''unique''
                        \<or> js_includes message ''constraint''))"

text \<open>One iteration of the loop over \<open>data\<close>, with its \<open>catch\<close>.\<close>

definition backup_row :: "local_pg \<Rightarrow> column list \<Rightarrow> row \<Rightarrow> backup_state \<Rightarrow> backup_state" where
  "backup_row db columns r st =
     (case backup_row_try db columns r st of
        Inr st' \<Rightarrow> st'
      | Inl msg \<Rightarrow> if is_duplicate_error msg then st\<lparr> bs_skipped := bs_skipped st + 1 \<rparr> else st)"

record backup_result =
  inserted :: nat
  skipped :: nat

text \<open>
  \<open>createTableIfNotExists\<close> (lines 220-299): the table is created empty when it does
  not exist and left as it is otherwise; an error of the statement is rethrown.
\<close>

definition createTableIfNotExists ::
  "local_pg \<Rightarrow> column list \<Rightarrow> stored_row list option \<Rightarrow> string + stored_row list" where
  "createTableIfNotExists db columns mirror =
     (case ddl_error db columns of
        Some msg \<Rightarrow> Inl (''Failed to create table: '' @ msg)
      | None \<Rightarrow> Inr (case mirror of None \<Rightarrow> [] | Some rows \<Rightarrow> rows))"

text \<open>\<open>upsertTableData\<close> (lines 364-474) on the mirror table of \<open>tableName\<close>.\<close>

definition upsertTableData ::
  "local_pg \<Rightarrow> string \<Rightarrow> row list \<Rightarrow> column list \<Rightarrow> stored_row list option
   \<Rightarrow> string + (backup_result \<times> stored_row list option)" where
  "upsertTableData db tableName data columns mirror =
     (case createTableIfNotExists db columns mirror of
        Inl msg \<Rightarrow> Inl (''Failed to insert data: '' @ msg)
      | Inr rows \<Rightarrow>
          if length data = 0 then Inr (\<lparr> inserted = 0, skipped = 0 \<rparr>, Some rows)
          else
            (let st = fold (backup_row db columns) data
                        \<lparr> bs_inserted = 0, bs_skipped = 0, bs_rows = rows \<rparr>
             in Inr (\<lparr> inserted = bs_inserted st, skipped = bs_skipped st \<rparr>, Some (bs_rows st))))"

subsection \<open>Example data for the backup direction\<close>

text \<open>
  A server whose \<open>numeric\<close> input refuses \<open>Infinity\<close> (as PostgreSQL before
  version 14 does) and refuses \<open>-1\<close> with the message of a violated domain
  constraint; a table whose \<open>id\<close> column is no key; and the three-row table of the
  scenario.
\<close>

definition strict_numeric_pg :: local_pg where
  "strict_numeric_pg =
     \<lparr> ddl_error = (\<lambda>columns. None),
       pg_input = (\<lambda>ty t. if ty = NUMERIC \<and> t = ''Infinity''
                            then Inl ''invalid input syntax for type numeric: Infinity''
                          else if ty = NUMERIC \<and> t = ''-1''
                            then Inl ''value for domain price violates check constraint''
                          else Inr t) \<rparr>"

definition price_columns :: "column list" where
  "price_columns = [\<lparr> col_name = ''id'', col_type = ''integer'' \<rparr>,
                    \<lparr> col_name = ''price'', col_type = ''double precision'' \<rparr>]"

definition price_rows :: "row list" where
  "price_rows = [[(''id'', JNum ''1''), (''price'', JNum ''Infinity'')],
                 [(''id'', JNum ''1''), (''price'', JNum ''2.5'')]]"


definition widget_columns :: "column list" where
  "widget_columns = [\<lparr> col_name = ''id'', col_type = ''integer'' \<rparr>,
                     \<lparr> col_name = ''name'', col_type = ''text'' \<rparr>]"

definition widget_rows :: "row list" where
  "widget_rows = [[(''id'', JNum ''1''), (''name'', JStr ''bolt'')],
                  [(''id'', JNum ''2''), (''name'', JStr ''nut'')],
                  [(''id'', JNum ''3''), (''name'', JNull)]]"

definition widget_mirror :: "stored_row list" where
  "widget_mirror = [[(''id'', Some ''1''), (''name'', Some ''bolt'')],
                    [(''id'', Some ''2''), (''name'', Some ''nut'')],
                    [(''id'', Some ''3''), (''name'', None)]]"

section \<open>Properties of the Job Tracker\<close>

lemma rows_of_Table [simp]: "rows_of (Table t) = t"
  by (simp add: rows_of_def)

lemma deleteMany_apply:
  "deleteMany c t k = (case t k of None \<Rightarrow> None
                       | Some j \<Rightarrow> if sweep_matches c j then None else Some j)"
  by (simp add: deleteMany_def)

lemma cutoffDate_value:
  "cutoffDate zone now n =
     (if \<bar>now + offset_at_instant zone now - n * 86400000
           - offset_at_local zone (now + offset_at_instant zone now - n * 86400000)\<bar>
         \<le> 8640000000000000
      then Some (now + offset_at_instant zone now - n * 86400000
                 - offset_at_local zone (now + offset_at_instant zone now - n * 86400000))
      else None)"
  by (simp add: cutoffDate_def TimeClip_def msPerDay_def maxTimeValue_def Let_def)

lemma cleanup_Table:
  "rows_of (cleanupOldStatuses zone now (Some n) (Table t)) k =
     (case cutoffDate zone now n of
        None \<Rightarrow> t k
      | Some c \<Rightarrow> (case t k of
                    None \<Rightarrow> None
                  | Some j \<Rightarrow> if (j_status j = ''completed'' \<or> j_status j = ''failed'')
                                 \<and> j_createdAt j < c then None else Some j))"
  by (auto simp: cleanupOldStatuses_def deleteMany_apply sweep_matches_def
           split: option.splits)

lemma cleanup_keeps_unmatched:
  assumes "rows_of d k = Some j" and "j_status j \<noteq> ''completed''" and "j_status j \<noteq> ''failed''"
  shows "rows_of (cleanupOldStatuses zone now days d) k = Some j"
proof (cases d)
  case (Table t)
  with assms show ?thesis
    by (auto simp: cleanupOldStatuses_def deleteMany_apply sweep_matches_def
             split: option.splits)
qed (use assms in \<open>simp_all add: cleanupOldStatuses_def rows_of_def\<close>)

lemma truthy_js_or_None [simp]: "truthy (js_or a None) = truthy a"
  by (simp add: js_or_def truthy_def)

lemma backup_new_job_needs_type_and_backend:
  assumes "t jobId = None" and "\<not> truthy (p_type p) \<or> \<not> truthy (p_backendName p)"
  shows "setBackupStatus_try now jobId p (Table t) =
           Inl (''Missing required fields for new record: type='' @ show_opt (js_or (p_type p) None)
                @ '', backendName='' @ show_opt (js_or (p_backendName p) None))"
  using assms by (simp add: setBackupStatus_try_def Let_def)

lemma upload_new_job_needs_type_and_backend:
  assumes "t jobId = None" and "\<not> truthy (p_type p) \<or> \<not> truthy (p_backendName p)"
  shows "setUploadStatus_try now jobId p (Table t) =
           Inl (''Missing required fields: type='' @ show_opt (js_or (p_type p) None)
                @ '', backendName='' @ show_opt (js_or (p_backendName p) None))"
  using assms by (simp add: setUploadStatus_try_def Let_def)

text \<open>
  C3, as the claim states it, fails for \<open>setBackupStatus\<close>: a patch holding only
  \<open>status = processing\<close> for an unknown job makes the call return normally; the error
  raised inside is caught and logged, never surfaced to the caller.
\<close>

theorem setBackupStatus_swallows_error_counterexample:
  "snd (setBackupStatus 1000 ''A_database_1000''
          \<lparr> p_status = Some ''processing'', p_type = None, p_backendName = None,
            p_tableName = None, p_progress = None, p_message = None, p_result = None,
            p_error = None, p_isAutomatic = None \<rparr> (Table Map.empty)) = Returned
   \<and> \<not> (\<exists>e. snd (setBackupStatus 1000 ''A_database_1000''
          \<lparr> p_status = Some ''processing'', p_type = None, p_backendName = None,
            p_tableName = None, p_progress = None, p_message = None, p_result = None,
            p_error = None, p_isAutomatic = None \<rparr> (Table Map.empty)) = Threw e)"
  by (simp add: setBackupStatus_def setBackupStatus_try_def js_or_def truthy_def Let_def)

text \<open>
  C3 (amended): for a job id with no record and a patch from which the type or the
  backend name cannot be resolved, no record is created by either tracker: the store is
  left exactly as it was. \<open>setUploadStatus\<close> fails with the ``Missing required fields''
  error; \<open>setBackupStatus\<close> raises the same kind of error inside its \<open>try\<close> block but
  catches it and returns normally.
\<close>

theorem setStatus_unresolvable_creates_nothing:
  assumes "t jobId = None" and "\<not> truthy (p_type p) \<or> \<not> truthy (p_backendName p)"
  shows "setUploadStatus now jobId p (Table t) =
           (Table t, Threw (''Missing required fields: type='' @ show_opt (js_or (p_type p) None)
                            @ '', backendName='' @ show_opt (js_or (p_backendName p) None)))
       \<and> setBackupStatus now jobId p (Table t) = (Table t, Returned)
       \<and> isl (setBackupStatus_try now jobId p (Table t))"
  using assms backup_new_job_needs_type_and_backend [of t jobId p now]
        upload_new_job_needs_type_and_backend [of t jobId p now]
  by (simp add: setUploadStatus_def setBackupStatus_def)

theorem setStatus_unresolvable_creates_nothing_witness:
  "setUploadStatus 1000 ''upload_A_database_1000''
      \<lparr> p_status = Some ''processing'', p_type = None, p_backendName = None,
        p_tableName = None, p_progress = None, p_message = None, p_result = None,
        p_error = None, p_isAutomatic = None \<rparr> (Table Map.empty)
     = (Table Map.empty, Threw ''Missing required fields: type=undefined, backendName=undefined'')
   \<and> setBackupStatus 1000 ''upload_A_database_1000''
      \<lparr> p_status = Some ''processing'', p_type = None, p_backendName = None,
        p_tableName = None, p_progress = None, p_message = None, p_result = None,
        p_error = None, p_isAutomatic = None \<rparr> (Table Map.empty)
     = (Table Map.empty, Returned)"
  using setStatus_unresolvable_creates_nothing [of Map.empty "''upload_A_database_1000''"
      "\<lparr> p_status = Some ''processing'', p_type = None, p_backendName = None,
        p_tableName = None, p_progress = None, p_message = None, p_result = None,
        p_error = None, p_isAutomatic = None \<rparr>" 1000]
  by (simp add: truthy_def show_opt_def js_or_def)

text \<open>
  Under a daylight-saving change the cutoff is not a whole number of days before now:
  in \<open>summer_zone\<close>, a sweep with a retention of one day, run half an hour after the
  clocks were put forward, deletes a finished job that is 23 hours and a half old.
\<close>

lemma sweep_daylight_saving_example:
  "cutoffDate summer_zone 1000001800000 1 = Some (1000001800000 - 86400000 + 3600000)
   \<and> rows_of (cleanupOldStatuses summer_zone 1000001800000 (Some 1)
        (Table [''j'' \<mapsto> job_at ''completed'' (1000001800000 - 84600000)])) ''j'' = None"
  by (simp add: cleanup_Table cutoffDate_value summer_zone_def job_at_def)

text \<open>
  C9: with the retention setting \<open>n\<close> (in days), the retention cutoff is the instant at
  which the local clock shows the time of day of now, \<open>n\<close> calendar days earlier: the
  local time of now, less \<open>n\<close> times 86400000 ms, taken back to an instant with the
  zone's offset there. The retention sweep removes exactly the rows whose status is
  \<open>completed\<close> or \<open>failed\<close> and whose creation time lies before that cutoff; every other
  row is kept unchanged. Where the zone's offset is the same at both ends, the cutoff is
  \<open>n\<close> times 86400000 ms before now. A setting that moves the cutoff further than
  8640000000000000 ms from the epoch gives no cutoff, and the sweep removes nothing.
  A row in the \<open>processing\<close> state survives every sweep, whatever its age, the zone,
  the retention setting and the state of the store.
\<close>

theorem sweep_deletes_exactly_terminal_expired:
  "rows_of (cleanupOldStatuses zone now (Some n) (Table t)) k =
     (let newDate = now + offset_at_instant zone now - n * 86400000;
          cutoff = newDate - offset_at_local zone newDate
      in if \<bar>cutoff\<bar> \<le> 8640000000000000
         then (case t k of
                 None \<Rightarrow> None
               | Some j \<Rightarrow> if (j_status j = ''completed'' \<or> j_status j = ''failed'')
                              \<and> j_createdAt j < cutoff then None else Some j)
         else t k)
   \<and> (offset_at_local zone (now + offset_at_instant zone now - n * 86400000)
         = offset_at_instant zone now
       \<and> \<bar>now - n * 86400000\<bar> \<le> 8640000000000000
        \<longrightarrow> rows_of (cleanupOldStatuses zone now (Some n) (Table t)) k =
             (case t k of
                None \<Rightarrow> None
              | Some j \<Rightarrow> if (j_status j = ''completed'' \<or> j_status j = ''failed'')
                             \<and> j_createdAt j < now - n * 86400000 then None else Some j))
   \<and> (rows_of d k = Some j' \<and> j_status j' = ''processing''
        \<longrightarrow> rows_of (cleanupOldStatuses zone now days d) k = Some j')"
proof (intro conjI)
  show "rows_of (cleanupOldStatuses zone now (Some n) (Table t)) k =
     (let newDate = now + offset_at_instant zone now - n * 86400000;
          cutoff = newDate - offset_at_local zone newDate
      in if \<bar>cutoff\<bar> \<le> 8640000000000000
         then (case t k of
                 None \<Rightarrow> None
               | Some j \<Rightarrow> if (j_status j = ''completed'' \<or> j_status j = ''failed'')
                              \<and> j_createdAt j < cutoff then None else Some j)
         else t k)"
    by (simp add: cleanup_Table cutoffDate_value Let_def)
next
  show "offset_at_local zone (now + offset_at_instant zone now - n * 86400000)
         = offset_at_instant zone now
       \<and> \<bar>now - n * 86400000\<bar> \<le> 8640000000000000
        \<longrightarrow> rows_of (cleanupOldStatuses zone now (Some n) (Table t)) k =
             (case t k of
                None \<Rightarrow> None
              | Some j \<Rightarrow> if (j_status j = ''completed'' \<or> j_status j = ''failed'')
                             \<and> j_createdAt j < now - n * 86400000 then None else Some j)"
    by (simp add: cleanup_Table cutoffDate_value)
next
  show "rows_of d k = Some j' \<and> j_status j' = ''processing''
        \<longrightarrow> rows_of (cleanupOldStatuses zone now days d) k = Some j'"
    using cleanup_keeps_unmatched [of d k j' zone now days] by auto
qed

text \<open>
  A sweep at the instant 1000000000 with a retention of seven days, in a zone at a fixed
  offset: the two finished jobs created at the epoch go, the finished job created one
  millisecond before the sweep and the running job created at the epoch stay. With a
  retention of minus a thousand million days the cutoff leaves the range of dates and
  the old finished job stays as well.
\<close>

theorem sweep_deletes_exactly_terminal_expired_witness:
  "rows_of (cleanupOldStatuses utc_zone 1000000000 (Some 7) (Table sweep_store)) ''old_done'' = None
   \<and> rows_of (cleanupOldStatuses utc_zone 1000000000 (Some 7) (Table sweep_store)) ''old_failed'' = None
   \<and> rows_of (cleanupOldStatuses utc_zone 1000000000 (Some 7) (Table sweep_store)) ''new_done''
       = Some (job_at ''completed'' 999999999)
   \<and> rows_of (cleanupOldStatuses utc_zone 1000000000 (Some 7) (Table sweep_store)) ''old_running''
       = Some (job_at ''processing'' 0)
   \<and> rows_of (cleanupOldStatuses utc_zone 1000000000 (Some (- 1000000000)) (Table sweep_store))
        ''old_done'' = Some (job_at ''completed'' 0)"
  using sweep_deletes_exactly_terminal_expired
          [of utc_zone 1000000000 7 sweep_store "''old_done''"]
        sweep_deletes_exactly_terminal_expired
          [of utc_zone 1000000000 7 sweep_store "''old_failed''"]
        sweep_deletes_exactly_terminal_expired
          [of utc_zone 1000000000 7 sweep_store "''new_done''"]
        sweep_deletes_exactly_terminal_expired
          [of utc_zone 1000000000 7 sweep_store "''old_running''" "Table sweep_store"
              "job_at ''processing'' 0" "Some 7"]
        sweep_deletes_exactly_terminal_expired
          [of utc_zone 1000000000 "- 1000000000" sweep_store "''old_done''"]
  by (simp add: utc_zone_def sweep_store_def job_at_def)

section \<open>Properties of the Comparator\<close>

lemma js_round_mono: "x \<le> y \<Longrightarrow> js_round x \<le> js_round y"
  by (simp add: js_round_def floor_mono)

lemma js_round_numeral [simp]: "js_round 100 = 100" "js_round 0 = 0"
  by (simp_all add: js_round_def)

lemma progress_of_bounds:
  assumes "mono rnd" "rnd 0 = 0" "rnd 1 = 1" "rnd 100 = 100"
  shows "0 \<le> progress_of rnd b r"
    and "b \<le> r \<Longrightarrow> progress_of rnd b r \<le> 100"
    and "0 < r \<Longrightarrow> r \<le> b \<Longrightarrow> 100 \<le> progress_of rnd b r"
    and "r = 0 \<Longrightarrow> (progress_of rnd b r = 100 \<longleftrightarrow> 0 < b)"
proof -
  have q0: "0 \<le> rnd x" if "0 \<le> x" for x
    using monoD [OF assms(1) that] assms(2) by simp
  have q1: "rnd x \<le> 1" if "x \<le> 1" for x
    using monoD [OF assms(1) that] assms(3) by simp
  have q1': "1 \<le> rnd x" if "1 \<le> x" for x
    using monoD [OF assms(1) that] assms(3) by simp
  have q100: "rnd x \<le> 100" if "x \<le> 100" for x
    using monoD [OF assms(1) that] assms(4) by simp
  have q100': "100 \<le> rnd x" if "100 \<le> x" for x
    using monoD [OF assms(1) that] assms(4) by simp
  show "0 \<le> progress_of rnd b r"
  proof (cases "0 < r")
    case True
    have "0 \<le> rnd (rnd (real b / real r) * 100)"
      by (intro q0 mult_nonneg_nonneg) simp_all
    then have "js_round 0 \<le> js_round (rnd (rnd (real b / real r) * 100))"
      by (rule js_round_mono)
    with True show ?thesis by (simp add: progress_of_def)
  qed (simp add: progress_of_def)
  show "progress_of rnd b r \<le> 100" if "b \<le> r"
  proof (cases "0 < r")
    case True
    have "real b / real r \<le> 1" using that True by simp
    then have "rnd (real b / real r) * 100 \<le> 100" using q1 by fastforce
    then have "js_round (rnd (rnd (real b / real r) * 100)) \<le> js_round 100"
      by (intro js_round_mono q100)
    with True show ?thesis by (simp add: progress_of_def)
  qed (simp add: progress_of_def)
  show "100 \<le> progress_of rnd b r" if "0 < r" "r \<le> b"
  proof -
    have "1 \<le> real b / real r" using that by simp
    then have "100 \<le> rnd (real b / real r) * 100" using q1' by fastforce
    then have "js_round 100 \<le> js_round (rnd (rnd (real b / real r) * 100))"
      by (intro js_round_mono q100')
    with that show ?thesis by (simp add: progress_of_def)
  qed
  show "(progress_of rnd b r = 100 \<longleftrightarrow> 0 < b)" if "r = 0"
    using that by (simp add: progress_of_def)
qed

lemma rnd_twice_close:
  assumes err: "\<forall>x. 1 / 2 ^ 64 \<le> x \<and> x \<le> 2 ^ 64 \<longrightarrow> \<bar>rnd x - x\<bar> \<le> x / 2 ^ 53"
      and zero: "rnd 0 = 0"
      and r: "0 < r" "real r \<le> 10 ^ 12" and b: "real b \<le> 10 ^ 12"
  shows "\<bar>rnd (rnd (real b / real r) * 100) - 100 * real b / real r\<bar>
           \<le> 3 * (100 * real b / real r) / 2 ^ 53"
proof (cases "b = 0")
  case True
  then show ?thesis using zero by simp
next
  case False
  define y where "y = real b / real r"
  define q where "q = rnd y"
  define e :: real where "e = 1 / 2 ^ 53"
  have e: "0 < e" "e \<le> 1 / 2" by (simp_all add: e_def)
  have rb: "1 \<le> real b" "real b \<le> 10 ^ 12" "1 \<le> real r" "real r \<le> 10 ^ 12"
    using False r b by simp_all
  have ylo: "1 / 10 ^ 12 \<le> y"
  proof -
    have "1 / 10 ^ 12 \<le> 1 / real r" using rb by (simp add: frac_le)
    also have "\<dots> \<le> real b / real r" using rb by (simp add: divide_right_mono)
    finally show ?thesis by (simp add: y_def)
  qed
  have yhi: "y \<le> 10 ^ 12"
  proof -
    have "real b / real r \<le> real b / 1" using rb by (intro divide_left_mono) simp_all
    then show ?thesis using rb by (simp add: y_def)
  qed
  have ypos: "0 < y" using ylo by (rule less_le_trans [rotated]) simp
  have "1 / 2 ^ 64 \<le> y \<and> y \<le> 2 ^ 64"
    using ylo yhi by simp
  with err have "\<bar>rnd y - y\<bar> \<le> y / 2 ^ 53" by blast
  then have qy: "\<bar>q - y\<bar> \<le> y * e" by (simp add: q_def e_def)
  have qlo: "y / 2 \<le> q" and qhi: "q \<le> 2 * y"
  proof -
    have "y * e \<le> y / 2" using e ypos by (simp add: field_simps)
    then show "y / 2 \<le> q" "q \<le> 2 * y" using qy ypos by linarith+
  qed
  have "1 / 2 ^ 64 \<le> q * 100 \<and> q * 100 \<le> 2 ^ 64"
    using qlo qhi ylo yhi by simp
  with err have "\<bar>rnd (q * 100) - q * 100\<bar> \<le> q * 100 / 2 ^ 53" by blast
  then have pq: "\<bar>rnd (q * 100) - q * 100\<bar> \<le> q * 100 * e"
    by (simp add: e_def)
  have qe: "q * 100 * e \<le> (y + y * e) * 100 * e"
    using qy e by (intro mult_right_mono) linarith+
  have ee: "y * e * 100 * e \<le> y * 100 * e"
  proof -
    have "y * e * (100 * e) \<le> y * 1 * (100 * e)"
      using e ypos by (intro mult_right_mono mult_left_mono) simp_all
    then show ?thesis by (simp add: mult_ac)
  qed
  have t1: "\<bar>(rnd (q * 100) - q * 100) + (q * 100 - 100 * y)\<bar>
              \<le> \<bar>rnd (q * 100) - q * 100\<bar> + \<bar>q * 100 - 100 * y\<bar>"
    by (rule abs_triangle_ineq)
  have "q * 100 - 100 * y = 100 * (q - y)" by simp
  then have t2: "\<bar>q * 100 - 100 * y\<bar> = 100 * \<bar>q - y\<bar>"
    by (simp only: abs_mult)
  have "\<bar>rnd (q * 100) - 100 * y\<bar> \<le> \<bar>rnd (q * 100) - q * 100\<bar> + 100 * \<bar>q - y\<bar>"
    using t1 t2 by simp
  also have "\<dots> \<le> (y + y * e) * 100 * e + 100 * (y * e)"
  proof (rule add_mono)
    show "\<bar>rnd (q * 100) - q * 100\<bar> \<le> (y + y * e) * 100 * e"
      using pq qe by (rule order_trans)
    show "100 * \<bar>q - y\<bar> \<le> 100 * (y * e)"
      using qy by simp
  qed
  also have "\<dots> \<le> 3 * (100 * y) * e"
    using ee by (simp add: algebra_simps)
  finally show ?thesis by (simp add: y_def q_def e_def)
qed

lemma progress_of_threshold:
  assumes err: "\<forall>x. 1 / 2 ^ 64 \<le> x \<and> x \<le> 2 ^ 64 \<longrightarrow> \<bar>rnd x - x\<bar> \<le> x / 2 ^ 53"
      and zero: "rnd 0 = 0"
      and r: "0 < r" "real r \<le> 10 ^ 12" and b: "real b \<le> 10 ^ 12"
  shows "(2 * k - 1) * int r < 200 * int b \<Longrightarrow> 200 * int b < (2 * k + 1) * int r
           \<Longrightarrow> progress_of rnd b r = k"
    and "progress_of rnd b r = k
           \<Longrightarrow> (2 * k - 1) * int r \<le> 200 * int b \<and> 200 * int b \<le> (2 * k + 1) * int r"
proof -
  define R where "R = real r"
  define B where "B = real b"
  define x where "x = 100 * B / R"
  define p where "p = rnd (rnd (real b / real r) * 100)"
  define d where "d = 3 * x / 2 ^ 53"
  have R: "0 < R" using r by (simp add: R_def)
  have B: "0 \<le> B" "B \<le> 10 ^ 12" using b by (simp_all add: B_def)
  have close: "\<bar>p - x\<bar> \<le> d"
    using rnd_twice_close [OF err zero r b] by (simp add: p_def x_def d_def R_def B_def)
  have "600 * B < 2 ^ 53" using B by simp
  then have "600 * B / 2 ^ 53 < 1" by simp
  moreover have "d * (2 * R) = 600 * B / 2 ^ 53" using R by (simp add: d_def x_def)
  ultimately have small: "d * (2 * R) < 1" by simp
  have xR: "x * (2 * R) = 200 * B" using R by (simp add: x_def)
  have prog: "progress_of rnd b r = \<lfloor>p + 1 / 2\<rfloor>"
    using r by (simp add: progress_of_def js_round_def p_def)
  have lower: "real_of_int j - 1 / 2 < p" if "(2 * j - 1) * int r < 200 * int b" for j
  proof (rule ccontr)
    assume "\<not> real_of_int j - 1 / 2 < p"
    then have "x \<le> real_of_int j - 1 / 2 + d" using close by linarith
    then have "x * (2 * R) \<le> (real_of_int j - 1 / 2 + d) * (2 * R)"
      using R by (intro mult_right_mono) simp_all
    then have "200 * B < (2 * real_of_int j - 1) * R + 1"
      using small xR by (simp add: algebra_simps)
    moreover have "(2 * j - 1) * int r + 1 \<le> 200 * int b" using that by simp
    then have "real_of_int ((2 * j - 1) * int r + 1) \<le> real_of_int (200 * int b)"
      by (simp only: of_int_le_iff)
    then have "(2 * real_of_int j - 1) * R + 1 \<le> 200 * B" by (simp add: R_def B_def)
    ultimately show False by simp
  qed
  have upper: "p < real_of_int j + 1 / 2" if "200 * int b < (2 * j + 1) * int r" for j
  proof (rule ccontr)
    assume "\<not> p < real_of_int j + 1 / 2"
    then have "real_of_int j + 1 / 2 - d \<le> x" using close by linarith
    then have "(real_of_int j + 1 / 2 - d) * (2 * R) \<le> x * (2 * R)"
      using R by (intro mult_right_mono) simp_all
    then have "(2 * real_of_int j + 1) * R - 1 < 200 * B"
      using small xR by (simp add: algebra_simps)
    moreover have "200 * int b + 1 \<le> (2 * j + 1) * int r" using that by simp
    then have "real_of_int (200 * int b + 1) \<le> real_of_int ((2 * j + 1) * int r)"
      by (simp only: of_int_le_iff)
    then have "200 * B + 1 \<le> (2 * real_of_int j + 1) * R" by (simp add: R_def B_def)
    ultimately show False by simp
  qed
  show "progress_of rnd b r = k"
    if "(2 * k - 1) * int r < 200 * int b" "200 * int b < (2 * k + 1) * int r"
  proof -
    have "\<lfloor>p + 1 / 2\<rfloor> = k"
      using lower [OF that(1)] upper [OF that(2)] by (intro floor_unique) simp_all
    then show ?thesis by (simp add: prog)
  qed
  show "(2 * k - 1) * int r \<le> 200 * int b \<and> 200 * int b \<le> (2 * k + 1) * int r"
    if "progress_of rnd b r = k"
  proof -
    have fl: "\<lfloor>p + 1 / 2\<rfloor> = k" using that by (simp add: prog)
    have p1: "real_of_int k - 1 / 2 \<le> p" and p2: "p < real_of_int k + 1 / 2"
      using fl floor_correct [of "p + 1 / 2"] by simp_all
    have "(2 * k - 1) * int r \<le> 200 * int b"
    proof (rule ccontr)
      assume "\<not> (2 * k - 1) * int r \<le> 200 * int b"
      then have "200 * int b < (2 * k - 1) * int r" by simp
      then have "200 * int b < (2 * (k - 1) + 1) * int r" by (simp add: algebra_simps)
      from upper [of "k - 1", OF this] p1 show False by simp
    qed
    moreover have "200 * int b \<le> (2 * k + 1) * int r"
    proof (rule ccontr)
      assume "\<not> 200 * int b \<le> (2 * k + 1) * int r"
      then have "(2 * k + 1) * int r < 200 * int b" by simp
      then have "(2 * (k + 1) - 1) * int r < 200 * int b" by (simp add: algebra_simps)
      from lower [of "k + 1", OF this] p2 show False by simp
    qed
    ultimately show ?thesis ..
  qed
qed

lemma compareTable_progress:
  "e_progress (compareTable rnd name r ex cnt ok rids bids fetch) =
     (if ex then (case cnt of Some b \<Rightarrow> progress_of rnd b r | None \<Rightarrow> 0) else 0)"
  by (simp add: compareTable_def Let_def split: option.splits)

lemma compareTable_backupCount:
  "e_backupCount (compareTable rnd name r ex cnt ok rids bids fetch) =
     (if ex then (case cnt of Some b \<Rightarrow> b | None \<Rightarrow> 0) else 0)"
  by (simp add: compareTable_def Let_def split: option.splits)

lemma compareTable_remoteCount:
  "e_remoteCount (compareTable rnd name r ex cnt ok rids bids fetch) = r"
  by (simp add: compareTable_def Let_def split: option.splits)

text \<open>
  C2, as the claim states it, fails twice. There is no clamp: a mirror holding 3 rows
  of a remote table of 2 rows is reported with progress 150. And rounding reaches 100
  below equality: 255 of 256 rows is reported with progress 100. At both inputs the
  quotient and the product are exactly representable in binary64 (1.5 and 150;
  0.99609375 and 99.609375), so the rounding is the identity there.
\<close>

theorem progress_bounds_counterexample:
  "e_progress (compareTable (\<lambda>x. x) ''widgets'' 2 True (Some 3) True None None (\<lambda>ids. None)) = 150
   \<and> e_progress (compareTable (\<lambda>x. x) ''widgets'' 256 True (Some 255) True None None (\<lambda>ids. None)) = 100
   \<and> \<not> ((255::nat) \<ge> 256)"
  by (simp add: compareTable_progress progress_of_def js_round_def)

text \<open>
  C2 (amended). The rounding \<open>rnd\<close> of the two binary64 operations is taken to be
  monotone, to leave 0, 1 and 100 unchanged and to have a relative error of at most
  \<open>1 / 2 ^ 53\<close> on the numbers between \<open>1 / 2 ^ 64\<close> and \<open>2 ^ 64\<close> (binary64
  round-to-nearest is one such rounding). Then, for every entry of the report:

    \<^item> the progress is a non-negative integer, and at most 100 whenever the mirror count
      does not exceed the remote count;
    \<^item> a table that is absent from the mirror, or whose count failed, has progress 0;
    \<^item> for a table found and counted with remote count 0, the progress is 100 when the
      mirror count is positive and 0 otherwise;
    \<^item> for a table found and counted with remote count \<open>r > 0\<close> and mirror count \<open>b\<close>,
      the progress is \<open>Math.round\<close> of the rounded product of the rounded quotient
      \<open>b / r\<close> with 100; it is at least 100 when \<open>b \<ge> r\<close>, and exactly 100 when
      \<open>b = r\<close>;
    \<^item> for counts up to \<open>10 ^ 12\<close> that progress is the exact percentage \<open>100 b / r\<close>
      rounded to the nearest integer: it is \<open>k\<close> whenever
      \<open>(2k - 1) r < 200 b < (2k + 1) r\<close>, and only if
      \<open>(2k - 1) r \<le> 200 b \<le> (2k + 1) r\<close>. With \<open>k = 100\<close>: progress 100 is reported
      from a mirror count above 99.5 per cent of the remote count to one below 100.5
      per cent, and for no mirror count below 99.5 or above 100.5 per cent; exactly on
      the two boundaries the outcome is left to the rounding.
\<close>

theorem progress_bounds_amended:
  assumes "mono rnd" and "rnd 0 = 0" and "rnd 1 = 1" and "rnd 100 = 100"
      and "\<forall>x. 1 / 2 ^ 64 \<le> x \<and> x \<le> 2 ^ 64 \<longrightarrow> \<bar>rnd x - x\<bar> \<le> x / 2 ^ 53"
  shows "0 \<le> e_progress (compareTable rnd name r ex cnt ok rids bids fetch)
       \<and> (e_backupCount (compareTable rnd name r ex cnt ok rids bids fetch)
             \<le> e_remoteCount (compareTable rnd name r ex cnt ok rids bids fetch)
           \<longrightarrow> e_progress (compareTable rnd name r ex cnt ok rids bids fetch) \<le> 100)
       \<and> e_progress (compareTable rnd name r False cnt ok rids bids fetch) = 0
       \<and> e_progress (compareTable rnd name r True None ok rids bids fetch) = 0
       \<and> e_progress (compareTable rnd name 0 True (Some b) ok rids bids fetch)
           = (if 0 < b then 100 else 0)
       \<and> (e_progress (compareTable rnd name 0 True (Some b) ok rids bids fetch) = 100
           \<longleftrightarrow> 0 < b)
       \<and> (0 < r
           \<longrightarrow> e_progress (compareTable rnd name r True (Some b) ok rids bids fetch)
                = js_round (rnd (rnd (real b / real r) * 100)))
       \<and> (0 < r \<and> r \<le> b
           \<longrightarrow> 100 \<le> e_progress (compareTable rnd name r True (Some b) ok rids bids fetch))
       \<and> (0 < r
           \<longrightarrow> e_progress (compareTable rnd name r True (Some r) ok rids bids fetch) = 100)
       \<and> (0 < r \<and> r \<le> 1000000000000 \<and> b \<le> 1000000000000
          \<and> (2 * k - 1) * int r < 200 * int b \<and> 200 * int b < (2 * k + 1) * int r
           \<longrightarrow> e_progress (compareTable rnd name r True (Some b) ok rids bids fetch) = k)
       \<and> (0 < r \<and> r \<le> 1000000000000 \<and> b \<le> 1000000000000
          \<and> e_progress (compareTable rnd name r True (Some b) ok rids bids fetch) = k
           \<longrightarrow> (2 * k - 1) * int r \<le> 200 * int b \<and> 200 * int b \<le> (2 * k + 1) * int r)"
proof -
  note pb = progress_of_bounds [OF assms(1-4)]
  have big: "real n \<le> 10 ^ 12" if "n \<le> 1000000000000" for n :: nat
  proof -
    have "real n \<le> real 1000000000000" using that by (simp only: of_nat_le_iff)
    then show ?thesis by simp
  qed
  have c1: "0 \<le> e_progress (compareTable rnd name r ex cnt ok rids bids fetch)"
    using pb(1) by (simp add: compareTable_progress split: option.splits)
  have c2: "e_backupCount (compareTable rnd name r ex cnt ok rids bids fetch)
             \<le> e_remoteCount (compareTable rnd name r ex cnt ok rids bids fetch)
           \<longrightarrow> e_progress (compareTable rnd name r ex cnt ok rids bids fetch) \<le> 100"
    using pb(2) by (simp add: compareTable_progress compareTable_backupCount
        compareTable_remoteCount split: option.splits)
  have c3: "e_progress (compareTable rnd name r False cnt ok rids bids fetch) = 0"
    by (simp add: compareTable_progress)
  have c4: "e_progress (compareTable rnd name r True None ok rids bids fetch) = 0"
    by (simp add: compareTable_progress)
  have c5: "e_progress (compareTable rnd name 0 True (Some b) ok rids bids fetch)
           = (if 0 < b then 100 else 0)"
    by (simp add: compareTable_progress progress_of_def)
  have c6: "e_progress (compareTable rnd name 0 True (Some b) ok rids bids fetch) = 100
           \<longleftrightarrow> 0 < b"
    using pb(4) [of 0 b] by (simp add: compareTable_progress)
  have c7: "0 < r
           \<longrightarrow> e_progress (compareTable rnd name r True (Some b) ok rids bids fetch)
                = js_round (rnd (rnd (real b / real r) * 100))"
    by (simp add: compareTable_progress progress_of_def)
  have c8: "0 < r \<and> r \<le> b
           \<longrightarrow> 100 \<le> e_progress (compareTable rnd name r True (Some b) ok rids bids fetch)"
    using pb(3) by (simp add: compareTable_progress)
  have c9: "0 < r
           \<longrightarrow> e_progress (compareTable rnd name r True (Some r) ok rids bids fetch) = 100"
    using pb(2) [of r r] pb(3) [of r r] by (simp add: compareTable_progress)
  have c10: "0 < r \<and> r \<le> 1000000000000 \<and> b \<le> 1000000000000
          \<and> (2 * k - 1) * int r < 200 * int b \<and> 200 * int b < (2 * k + 1) * int r
           \<longrightarrow> e_progress (compareTable rnd name r True (Some b) ok rids bids fetch) = k"
    using progress_of_threshold(1) [OF assms(5) assms(2), of r b k] big [of r] big [of b]
    by (simp add: compareTable_progress)
  have c11: "0 < r \<and> r \<le> 1000000000000 \<and> b \<le> 1000000000000
          \<and> e_progress (compareTable rnd name r True (Some b) ok rids bids fetch) = k
           \<longrightarrow> (2 * k - 1) * int r \<le> 200 * int b \<and> 200 * int b \<le> (2 * k + 1) * int r"
    using progress_of_threshold(2) [OF assms(5) assms(2), of r b k] big [of r] big [of b]
    by (simp add: compareTable_progress)
  show ?thesis
    by (intro conjI c1 c2 c3 c4 c5 c6 c7 c8 c9 c10 c11)
qed

text \<open>
  With exact arithmetic as the rounding: 2 of 3 rows is reported as 67, an empty mirror
  of a table of 3 rows as 0, 255 of 256 rows as 100, 3 of 2 rows as 150, 3 of 3 rows as
  100, and 199 of 201 rows as 99.
\<close>

theorem progress_bounds_amended_witness:
  "e_progress (compareTable (\<lambda>x. x) ''widgets'' 3 True (Some 2) True None None (\<lambda>ids. None)) = 67
   \<and> e_progress (compareTable (\<lambda>x. x) ''widgets'' 3 True (Some 0) True None None (\<lambda>ids. None)) = 0
   \<and> e_progress (compareTable (\<lambda>x. x) ''widgets'' 256 True (Some 255) True None None (\<lambda>ids. None)) = 100
   \<and> e_progress (compareTable (\<lambda>x. x) ''widgets'' 2 True (Some 3) True None None (\<lambda>ids. None)) = 150
   \<and> e_progress (compareTable (\<lambda>x. x) ''widgets'' 3 True (Some 3) True None None (\<lambda>ids. None)) = 100
   \<and> e_progress (compareTable (\<lambda>x. x) ''widgets'' 201 True (Some 199) True None None (\<lambda>ids. None)) = 99"
  using progress_bounds_amended [of "\<lambda>x. x" "''widgets''" 3 True "Some 2" True None None
          "\<lambda>ids. None" 2 67]
        progress_bounds_amended [of "\<lambda>x. x" "''widgets''" 3 True "Some 0" True None None
          "\<lambda>ids. None" 0 0]
        progress_bounds_amended [of "\<lambda>x. x" "''widgets''" 256 True "Some 255" True None None
          "\<lambda>ids. None" 255 100]
        progress_bounds_amended [of "\<lambda>x. x" "''widgets''" 2 True "Some 3" True None None
          "\<lambda>ids. None" 3 150]
        progress_bounds_amended [of "\<lambda>x. x" "''widgets''" 3 True "Some 3" True None None
          "\<lambda>ids. None" 3 100]
        progress_bounds_amended [of "\<lambda>x. x" "''widgets''" 201 True "Some 199" True None None
          "\<lambda>ids. None" 199 99]
  by (simp add: mono_def)

lemma set_js_set [simp]: "set (js_set xs) = set xs"
  by (simp add: js_set_def)

lemma distinct_js_set [simp]: "distinct (js_set xs)"
  by (simp add: js_set_def)

lemma findMissingRecords_ok:
  "findMissingRecords True (Some rs) (Some bs) fetch =
     \<lparr> md_ids = filter (\<lambda>i. i \<notin> set bs) (js_set rs),
       md_records = (if filter (\<lambda>i. i \<notin> set bs) (js_set rs) = [] then []
                     else case fetch (take 100 (filter (\<lambda>i. i \<notin> set bs) (js_set rs))) of
                            Some rows \<Rightarrow> map convertRow rows
                          | None \<Rightarrow> map (\<lambda>i. [(''id'', JStr i)])
                                      (take 100 (filter (\<lambda>i. i \<notin> set bs) (js_set rs)))),
       md_totalMissing = length (filter (\<lambda>i. i \<notin> set bs) (js_set rs)) \<rparr>"
  by (simp add: findMissingRecords_def Let_def cong: option.case_cong)

lemma findMissingRecords_failed:
  "\<not> ok \<or> rids = None \<or> bids = None \<Longrightarrow>
   findMissingRecords ok rids bids fetch = \<lparr> md_ids = [], md_records = [], md_totalMissing = 0 \<rparr>"
  by (auto simp: findMissingRecords_def split: option.splits bool.splits)

lemma missing_ids_set: "set (filter (\<lambda>i. i \<notin> set bs) (js_set rs)) = set rs - set bs"
  by auto

lemma missing_ids_card:
  "length (filter (\<lambda>i. i \<notin> set bs) (js_set rs)) = card (set rs - set bs)"
proof -
  have "distinct (filter (\<lambda>i. i \<notin> set bs) (js_set rs))" by simp
  then have "card (set (filter (\<lambda>i. i \<notin> set bs) (js_set rs)))
             = length (filter (\<lambda>i. i \<notin> set bs) (js_set rs))"
    by (rule distinct_card)
  then show ?thesis by (simp only: missing_ids_set)
qed

lemma compareTable_failed_lookup:
  assumes "\<not> ok \<or> rids = None \<or> bids = None"
  shows "e_missingRecordsCount (compareTable rnd name remoteCount ex cnt ok rids bids fetch) = 0"
    and "e_missingRecordsIds (compareTable rnd name remoteCount ex cnt ok rids bids fetch) = []"
    and "e_missingRecords (compareTable rnd name remoteCount ex cnt ok rids bids fetch) = []"
  using findMissingRecords_failed [OF assms, of fetch]
  by (simp_all add: compareTable_def Let_def split: option.splits)

text \<open>
  C5, as the claim states it, fails for the tables whose \<open>id\<close> values cannot be read:
  \<open>findMissingRecords\<close> then gives up and the entry reports no missing record at all.
  With remote ids 1, 2 and mirror id 1, a failing connection leaves
  \<open>missingRecordsCount = 0\<close> although one identity is missing; and a remote table of
  two rows without an \<open>id\<close> column, mirrored with one row, is reported with
  \<open>missingRecordsCount = 0\<close> as well.
\<close>

theorem missing_records_unreadable_ids_counterexample:
  "e_missingRecordsCount (compareTable (\<lambda>x. x) ''widgets'' 2 True (Some 1) False
      (Some [''1'', ''2'']) (Some [''1'']) (\<lambda>ids. None)) = 0
   \<and> card (set [''1'', ''2''] - set [''1'']) = 1
   \<and> e_missingRecordsCount (compareTable (\<lambda>x. x) ''links'' 2 True (Some 1) True
      None (Some [''1'']) (\<lambda>ids. None)) = 0
   \<and> e_difference (compareTable (\<lambda>x. x) ''links'' 2 True (Some 1) True
      None (Some [''1'']) (\<lambda>ids. None)) = 1"
  by (simp add: compareTable_failed_lookup) (simp add: compareTable_def Let_def)

text \<open>
  C5 (amended): for a table found in the mirror whose mirror count is below its remote
  count, and whose \<open>id\<close> values were read from both stores (\<open>rs\<close> remotely, \<open>bs\<close>
  in the mirror), the missing ids are the distinct remote ids that are no mirror id, in
  order of first occurrence; the entry carries the first 100 of them, the records fetched
  for exactly those first 100 (capped at 100 again), and \<open>missingRecordsCount\<close> is the
  number of all missing ids, \<open>card (set rs - set bs)\<close>, not the size of the sample.
  When the ids cannot be read (the connection or one of the two id queries fails), the
  entry reports \<open>missingRecordsCount = 0\<close> and empty lists.
\<close>

theorem missing_records_true_total_capped_sample:
  assumes "backupCount < remoteCount"
  shows "(let E = compareTable rnd name remoteCount True (Some backupCount) True (Some rs) (Some bs) fetch;
              missing = filter (\<lambda>i. i \<notin> set bs) (js_set rs)
          in set missing = set rs - set bs \<and> distinct missing
           \<and> e_missingRecordsCount E = card (set rs - set bs)
           \<and> e_missingRecordsIds E = take 100 missing
           \<and> e_missingRecords E =
                take 100 (if missing = [] then []
                          else case fetch (take 100 missing) of
                                 Some rows \<Rightarrow> map convertRow rows
                               | None \<Rightarrow> map (\<lambda>i. [(''id'', JStr i)]) (take 100 missing))
           \<and> length (e_missingRecordsIds E) = min 100 (card (set rs - set bs))
           \<and> length (e_missingRecords E) \<le> 100)
       \<and> (\<not> ok \<or> rids = None \<or> bids = None \<longrightarrow>
            (let E = compareTable rnd name remoteCount True (Some backupCount) ok rids bids fetch
             in e_missingRecordsCount E = 0 \<and> e_missingRecordsIds E = [] \<and> e_missingRecords E = []))"
proof
  show "let E = compareTable rnd name remoteCount True (Some backupCount) True (Some rs) (Some bs) fetch;
              missing = filter (\<lambda>i. i \<notin> set bs) (js_set rs)
          in set missing = set rs - set bs \<and> distinct missing
           \<and> e_missingRecordsCount E = card (set rs - set bs)
           \<and> e_missingRecordsIds E = take 100 missing
           \<and> e_missingRecords E =
                take 100 (if missing = [] then []
                          else case fetch (take 100 missing) of
                                 Some rows \<Rightarrow> map convertRow rows
                               | None \<Rightarrow> map (\<lambda>i. [(''id'', JStr i)]) (take 100 missing))
           \<and> length (e_missingRecordsIds E) = min 100 (card (set rs - set bs))
           \<and> length (e_missingRecords E) \<le> 100"
    using assms
    by (simp add: compareTable_def Let_def findMissingRecords_ok missing_ids_card missing_ids_set
             del: set_filter)
next
  show "\<not> ok \<or> rids = None \<or> bids = None \<longrightarrow>
            (let E = compareTable rnd name remoteCount True (Some backupCount) ok rids bids fetch
             in e_missingRecordsCount E = 0 \<and> e_missingRecordsIds E = [] \<and> e_missingRecords E = [])"
    by (simp add: Let_def compareTable_failed_lookup)
qed

theorem missing_records_true_total_capped_sample_witness:
  "(1::nat) < 3
   \<and> e_missingRecordsCount (compareTable (\<lambda>x. x) ''widgets'' 3 True (Some 1) True
         (Some [''1'', ''2'', ''3'', ''2'']) (Some [''1'']) (\<lambda>ids. None))
       = card (set [''1'', ''2'', ''3'', ''2''] - set [''1''])
   \<and> e_missingRecordsIds (compareTable (\<lambda>x. x) ''widgets'' 3 True (Some 1) True
         (Some [''1'', ''2'', ''3'', ''2'']) (Some [''1'']) (\<lambda>ids. None))
       = [''2'', ''3'']
   \<and> e_missingRecords (compareTable (\<lambda>x. x) ''widgets'' 3 True (Some 1) True
         (Some [''1'', ''2'', ''3'', ''2'']) (Some [''1'']) (\<lambda>ids. None))
       = [[(''id'', JStr ''2'')], [(''id'', JStr ''3'')]]
   \<and> e_missingRecordsCount (compareTable (\<lambda>x. x) ''widgets'' 3 True (Some 1) True
         None (Some [''1'']) (\<lambda>ids. None)) = 0"
  using missing_records_true_total_capped_sample [of 1 3 "\<lambda>x. x" "''widgets''"
          "[''1'', ''2'', ''3'', ''2'']" "[''1'']" "\<lambda>ids. None" True None "Some [''1'']"]
  by (simp add: Let_def js_set_def)

section \<open>Properties of the file comparison\<close>

lemma distinct_add_file: "distinct (map fst m) \<Longrightarrow> distinct (map fst (add_file p f m))"
  by (simp add: add_file_def distinct_update)

lemma distinct_fold_add_file:
  "distinct (map fst m) \<Longrightarrow> distinct (map fst (fold (add_file p) fs m))"
  by (induction fs arbitrary: m) (simp_all add: distinct_add_file)

lemma distinct_traverse:
  "distinct (map fst m) \<Longrightarrow> distinct (map fst (traverse n p m))"
  "distinct (map fst m) \<Longrightarrow> distinct (map fst (traverse_folders ds p m))"
  by (induction n p m and ds p m rule: traverse_traverse_folders.induct)
     (simp_all add: distinct_fold_add_file)

lemma distinct_flattenFiles: "distinct (map fst (flattenFiles t))"
  by (simp add: flattenFiles_def distinct_traverse)

lemma bucket_loop_missingInLocal:
  "map mi_key (missingInLocal (fold (check_bucket_file L) B c)) =
     map mi_key (missingInLocal c) @ filter (\<lambda>k. map_of L k = None) (map fst B)"
  by (induction B arbitrary: c) (auto simp: check_bucket_file_def split: option.splits)

lemma bucket_loop_matching:
  "map ma_key (matchingFiles (fold (check_bucket_file L) B c)) =
     map ma_key (matchingFiles c) @
     map fst (filter (\<lambda>e. map_option ff_size (map_of L (fst e)) = Some (ff_size (snd e))) B)"
  by (induction B arbitrary: c) (auto simp: check_bucket_file_def split: option.splits)

lemma bucket_loop_different:
  "map di_key (differentFiles (fold (check_bucket_file L) B c)) =
     map di_key (differentFiles c) @
     map fst (filter (\<lambda>e. map_of L (fst e) \<noteq> None \<and>
                 map_option ff_size (map_of L (fst e)) \<noteq> Some (ff_size (snd e))) B)"
  by (induction B arbitrary: c) (auto simp: check_bucket_file_def split: option.splits)

lemma bucket_loop_missingInBucket:
  "missingInBucket (fold (check_bucket_file L) B c) = missingInBucket c"
  by (induction B arbitrary: c) (auto simp: check_bucket_file_def split: option.splits)

lemma local_loop_missingInBucket:
  "map mi_key (missingInBucket (fold (check_local_file B) L c)) =
     map mi_key (missingInBucket c) @ filter (\<lambda>k. map_of B k = None) (map fst L)"
  by (induction L arbitrary: c) (auto simp: check_local_file_def)

lemma local_loop_others:
  "missingInLocal (fold (check_local_file B) L c) = missingInLocal c"
  "matchingFiles (fold (check_local_file B) L c) = matchingFiles c"
  "differentFiles (fold (check_local_file B) L c) = differentFiles c"
  by (induction L arbitrary: c) (auto simp: check_local_file_def)

lemma compareFiles_keys:
  "map mi_key (missingInLocal (compareFiles bt lt)) =
     filter (\<lambda>k. map_of (flattenFiles lt) k = None) (map fst (flattenFiles bt))"
  "map mi_key (missingInBucket (compareFiles bt lt)) =
     filter (\<lambda>k. map_of (flattenFiles bt) k = None) (map fst (flattenFiles lt))"
  "map ma_key (matchingFiles (compareFiles bt lt)) =
     map fst (filter (\<lambda>e. map_option ff_size (map_of (flattenFiles lt) (fst e)) = Some (ff_size (snd e)))
                (flattenFiles bt))"
  "map di_key (differentFiles (compareFiles bt lt)) =
     map fst (filter (\<lambda>e. map_of (flattenFiles lt) (fst e) \<noteq> None \<and>
                 map_option ff_size (map_of (flattenFiles lt) (fst e)) \<noteq> Some (ff_size (snd e)))
                (flattenFiles bt))"
  by (simp_all add: compareFiles_def Let_def bucket_loop_missingInLocal bucket_loop_matching
        bucket_loop_different bucket_loop_missingInBucket local_loop_missingInBucket local_loop_others)


lemma keys_of_filter:
  assumes "distinct (map fst B)"
  shows "set (map fst (filter P B)) = {k. \<exists>b. map_of B k = Some b \<and> P (k, b)}"
  using assms by (force simp: image_iff)

lemma keys_filter_None:
  "set (filter (\<lambda>k. map_of L k = None) (map fst B)) = fst ` set B - fst ` set L"
  by (auto simp: map_of_eq_None_iff)

text \<open>
  C6: the keys of the four result lists are pairwise disjoint without repetition and
  together are exactly the union of the two flattened key sets: \<open>missingInLocal\<close>
  holds the bucket-only keys, \<open>missingInBucket\<close> the local-only keys,
  \<open>matchingFiles\<close> the keys present in both maps with equal size and
  \<open>differentFiles\<close> those present in both with different size. Nothing but the
  size decides between the last two.
\<close>

theorem compareFiles_partition:
  "let C = compareFiles bt lt; B = flattenFiles bt; L = flattenFiles lt;
       KB = fst ` set B; KL = fst ` set L;
       inLocalOnly = map mi_key (missingInBucket C);
       inBucketOnly = map mi_key (missingInLocal C);
       same = map ma_key (matchingFiles C);
       differ = map di_key (differentFiles C)
   in set inBucketOnly = KB - KL
    \<and> set inLocalOnly = KL - KB
    \<and> set same = {k. \<exists>b l. map_of B k = Some b \<and> map_of L k = Some l \<and> ff_size b = ff_size l}
    \<and> set differ = {k. \<exists>b l. map_of B k = Some b \<and> map_of L k = Some l \<and> ff_size b \<noteq> ff_size l}
    \<and> distinct (inBucketOnly @ inLocalOnly @ same @ differ)
    \<and> set (inBucketOnly @ inLocalOnly @ same @ differ) = KB \<union> KL"
proof -
  define B where "B = flattenFiles bt"
  define L where "L = flattenFiles lt"
  define C where "C = compareFiles bt lt"
  define ks1 where "ks1 = map mi_key (missingInLocal C)"
  define ks2 where "ks2 = map mi_key (missingInBucket C)"
  define ks3 where "ks3 = map ma_key (matchingFiles C)"
  define ks4 where "ks4 = map di_key (differentFiles C)"
  have dB: "distinct (map fst B)" and dL: "distinct (map fst L)"
    by (simp_all add: B_def L_def distinct_flattenFiles)
  have s1: "set ks1 = fst ` set B - fst ` set L"
    unfolding ks1_def C_def compareFiles_keys B_def [symmetric] L_def [symmetric]
    by (rule keys_filter_None)
  have s2: "set ks2 = fst ` set L - fst ` set B"
    unfolding ks2_def C_def compareFiles_keys B_def [symmetric] L_def [symmetric]
    by (rule keys_filter_None)
  have s3: "set ks3 =
      {k. \<exists>b l. map_of B k = Some b \<and> map_of L k = Some l \<and> ff_size b = ff_size l}"
    unfolding ks3_def C_def compareFiles_keys B_def [symmetric] L_def [symmetric] keys_of_filter [OF dB]
    by auto
  have s4: "set ks4 =
      {k. \<exists>b l. map_of B k = Some b \<and> map_of L k = Some l \<and> ff_size b \<noteq> ff_size l}"
    unfolding ks4_def C_def compareFiles_keys B_def [symmetric] L_def [symmetric] keys_of_filter [OF dB]
    by auto
  have d1: "distinct ks1"
    unfolding ks1_def C_def compareFiles_keys B_def [symmetric] using dB by simp
  have d2: "distinct ks2"
    unfolding ks2_def C_def compareFiles_keys L_def [symmetric] using dL by simp
  have d3: "distinct ks3"
    unfolding ks3_def C_def compareFiles_keys B_def [symmetric] using dB by (simp add: distinct_map_filter)
  have d4: "distinct ks4"
    unfolding ks4_def C_def compareFiles_keys B_def [symmetric] using dB by (simp add: distinct_map_filter)
  have domB: "fst ` set B = {k. map_of B k \<noteq> None}"
    and domL: "fst ` set L = {k. map_of L k \<noteq> None}"
    by (auto simp: map_of_eq_None_iff)
  have disj: "distinct (ks1 @ ks2 @ ks3 @ ks4)"
    using d1 d2 d3 d4 unfolding distinct_append set_append s1 s2 s3 s4 domB domL by auto
  have cover: "set (ks1 @ ks2 @ ks3 @ ks4) = fst ` set B \<union> fst ` set L"
    unfolding set_append s1 s2 s3 s4 domB domL by auto
  show ?thesis
    unfolding Let_def B_def [symmetric] L_def [symmetric] C_def [symmetric]
      ks1_def [symmetric] ks2_def [symmetric] ks3_def [symmetric] ks4_def [symmetric]
    by (intro conjI s1 s2 s3 s4 disj cover)
qed


theorem compareFiles_partition_witness:
  "map mi_key (missingInLocal (compareFiles
      (Node [\<lparr>f_name = Some ''a.txt'', f_key = Some ''a.txt'', f_size = Some 3, f_lastModified = None\<rparr>]
            [(''img'', Node [\<lparr>f_name = Some ''logo.png'', f_key = Some ''img/logo.png'',
                               f_size = Some 200, f_lastModified = None\<rparr>] [])])
      (Node [\<lparr>f_name = Some ''a.txt'', f_key = Some ''a.txt'', f_size = Some 4, f_lastModified = None\<rparr>,
             \<lparr>f_name = Some ''b.txt'', f_key = Some ''b.txt'', f_size = Some 4, f_lastModified = None\<rparr>] [])))
     = [Some ''img/logo.png'']
   \<and> map mi_key (missingInBucket (compareFiles
      (Node [\<lparr>f_name = Some ''a.txt'', f_key = Some ''a.txt'', f_size = Some 3, f_lastModified = None\<rparr>]
            [(''img'', Node [\<lparr>f_name = Some ''logo.png'', f_key = Some ''img/logo.png'',
                               f_size = Some 200, f_lastModified = None\<rparr>] [])])
      (Node [\<lparr>f_name = Some ''a.txt'', f_key = Some ''a.txt'', f_size = Some 4, f_lastModified = None\<rparr>,
             \<lparr>f_name = Some ''b.txt'', f_key = Some ''b.txt'', f_size = Some 4, f_lastModified = None\<rparr>] [])))
     = [Some ''b.txt'']
   \<and> map di_key (differentFiles (compareFiles
      (Node [\<lparr>f_name = Some ''a.txt'', f_key = Some ''a.txt'', f_size = Some 3, f_lastModified = None\<rparr>]
            [(''img'', Node [\<lparr>f_name = Some ''logo.png'', f_key = Some ''img/logo.png'',
                               f_size = Some 200, f_lastModified = None\<rparr>] [])])
      (Node [\<lparr>f_name = Some ''a.txt'', f_key = Some ''a.txt'', f_size = Some 4, f_lastModified = None\<rparr>,
             \<lparr>f_name = Some ''b.txt'', f_key = Some ''b.txt'', f_size = Some 4, f_lastModified = None\<rparr>] [])))
     = [Some ''a.txt'']"
  using compareFiles_partition [of
      "Node [\<lparr>f_name = Some ''a.txt'', f_key = Some ''a.txt'', f_size = Some 3, f_lastModified = None\<rparr>]
            [(''img'', Node [\<lparr>f_name = Some ''logo.png'', f_key = Some ''img/logo.png'',
                               f_size = Some 200, f_lastModified = None\<rparr>] [])]"
      "Node [\<lparr>f_name = Some ''a.txt'', f_key = Some ''a.txt'', f_size = Some 4, f_lastModified = None\<rparr>,
             \<lparr>f_name = Some ''b.txt'', f_key = Some ''b.txt'', f_size = Some 4, f_lastModified = None\<rparr>] []"]
  by (simp add: compareFiles_def flattenFiles_def add_file_def file_key_def name_or_key_def
        js_or_def truthy_def sub_path_def show_opt_def check_bucket_file_def check_local_file_def)

section \<open>Properties of the plain-HTTP listing\<close>

lemma run_request_under_way:
  "list_all under_way pre \<Longrightarrow>
     run_request parse d (pre @ es) = run_request parse (d @ body_of pre) es"
proof (induction pre arbitrary: d)
  case Nil
  then show ?case by (simp add: body_of_def)
next
  case (Cons e pre)
  then have rest: "list_all under_way pre" and e: "under_way e" by simp_all
  show ?case
  proof (cases e)
    case (Head status)
    then show ?thesis using Cons.IH [OF rest, of d] by (simp add: body_of_def)
  next
    case (Data chunk)
    then show ?thesis using Cons.IH [OF rest, of "d @ chunk"] by (simp add: body_of_def)
  next
    case (Idle ms)
    then show ?thesis using e Cons.IH [OF rest, of d] by (simp add: body_of_def)
  qed (use e in simp_all)
qed

text \<open>
  C10, as the claim states it, fails: a response with status 404 whose body is the JSON
  array \<open>[1]\<close> yields that array, not the empty list.
\<close>

theorem http_listing_non200_counterexample:
  "getAllFilesFromHttp (\<lambda>body. if body = ''[1]'' then JsonArray [1::nat] else NotJson)
      None [Head 404, Data ''[1]'', End] = Resolved [1]
   \<and> getAllFilesFromHttp (\<lambda>body. if body = ''[1]'' then JsonArray [1::nat] else NotJson)
      None [Head 404, Data ''[1]'', End] \<noteq> Resolved []"
  by (simp add: getAllFilesFromHttp_def)

text \<open>
  C10 (amended): take any run of events that leaves the request under way (the head
  with whatever status code, chunks of the body, idle periods shorter than 10000 ms).
  If the response ends after it, the listing does not fail, and its result depends on
  the collected body alone: the parsed array when the body is a JSON array, the empty
  list when the body is not JSON or is JSON of another kind; the status code is not
  consulted, so a non-200 response yields the empty list only when its body is no JSON
  array. If instead the socket then stays idle for 10000 ms or more, at whatever point
  before the end of the response (before the head, after it, between two chunks), the
  request is rejected with `Request timeout'; a shorter idle period changes nothing. A
  request error at that point rejects the request, and as long as nothing else happens
  the request stays pending.
\<close>

theorem http_listing_best_effort:
  "list_all under_way pre \<longrightarrow>
     getAllFilesFromHttp parse None (pre @ End # es) =
       (case parse (body_of pre) of JsonArray files \<Rightarrow> Resolved files | _ \<Rightarrow> Resolved [])
   \<and> (parse (body_of pre) = NotJson \<longrightarrow>
        getAllFilesFromHttp parse None (pre @ End # es) = Resolved [])
   \<and> (ms \<ge> 10000 \<longrightarrow>
        getAllFilesFromHttp parse None (pre @ Idle ms # es) = Rejected ''Request timeout'')
   \<and> (ms < 10000 \<longrightarrow>
        getAllFilesFromHttp parse None (pre @ Idle ms # es)
          = getAllFilesFromHttp parse None (pre @ es))
   \<and> getAllFilesFromHttp parse None (pre @ Error msg # es)
        = Rejected (''Failed to fetch files: '' @ msg)
   \<and> getAllFilesFromHttp parse None pre = Pending"
proof
  assume pre: "list_all under_way pre"
  have step: "run_request parse [] (pre @ xs) = run_request parse (body_of pre) xs" for xs
    using run_request_under_way [OF pre, of parse "[]" xs] by simp
  have stop: "run_request parse [] pre = Pending"
    using step [of "[]"] by simp
  show "getAllFilesFromHttp parse None (pre @ End # es) =
       (case parse (body_of pre) of JsonArray files \<Rightarrow> Resolved files | _ \<Rightarrow> Resolved [])
   \<and> (parse (body_of pre) = NotJson \<longrightarrow>
        getAllFilesFromHttp parse None (pre @ End # es) = Resolved [])
   \<and> (ms \<ge> 10000 \<longrightarrow>
        getAllFilesFromHttp parse None (pre @ Idle ms # es) = Rejected ''Request timeout'')
   \<and> (ms < 10000 \<longrightarrow>
        getAllFilesFromHttp parse None (pre @ Idle ms # es)
          = getAllFilesFromHttp parse None (pre @ es))
   \<and> getAllFilesFromHttp parse None (pre @ Error msg # es)
        = Rejected (''Failed to fetch files: '' @ msg)
   \<and> getAllFilesFromHttp parse None pre = Pending"
    by (simp add: getAllFilesFromHttp_def step stop request_timeout_ms_def
             split: parsed.splits)
qed

text \<open>
  A 500 response with an HTML body that arrives in two chunks, five seconds apart; a
  response that stalls for a minute in the middle of its body; and the same response
  with a stall just short of the timeout.
\<close>

theorem http_listing_best_effort_witness:
  "getAllFilesFromHttp one_file_parser None
      [Head 500, Data ''<html>'', Idle 5000, Data ''oops</html>'', End] = Resolved []
   \<and> getAllFilesFromHttp one_file_parser None
      [Head 200, Data ''['', Idle 60000, Data ''1]'', End] = Rejected ''Request timeout''
   \<and> getAllFilesFromHttp one_file_parser None
      [Head 200, Data ''['', Idle 9999, Data ''1]'', End] = Resolved [1]"
  using http_listing_best_effort [of "[Head 500, Data ''<html>'', Idle 5000, Data ''oops</html>'']"
          one_file_parser "[]" 0 "[]"]
        http_listing_best_effort [of "[Head 200, Data ''['']" one_file_parser
          "[Data ''1]'', End]" 60000 "[]"]
        http_listing_best_effort [of "[Head 200, Data ''['', Idle 9999, Data ''1]'']"
          one_file_parser "[]" 0 "[]"]
  by (simp add: one_file_parser_def body_of_def request_timeout_ms_def)

section \<open>Properties of the upload direction\<close>

lemma take_batches:
  "n > 0 \<Longrightarrow> concat (map (\<lambda>i. take n (drop (i * n) xs)) [0 ..< k]) = take (k * n) xs"
proof (induction k)
  case 0
  then show ?case by simp
next
  case (Suc k)
  have "take (k * n + n) xs = take (k * n) xs @ take n (drop (k * n) xs)"
    by (rule take_add)
  with Suc show ?case by (simp add: add.commute)
qed

lemma concat_batches: "n > 0 \<Longrightarrow> concat (batches n xs) = xs"
proof -
  assume n: "n > 0"
  have "length xs \<le> ((length xs + n - 1) div n) * n"
  proof -
    have "(length xs + n - 1) mod n < n" using n by simp
    moreover have "length xs + n - 1
        = ((length xs + n - 1) div n) * n + (length xs + n - 1) mod n"
      by simp
    ultimately show ?thesis using n by linarith
  qed
  then show ?thesis using n by (simp add: batches_def take_batches)
qed

lemma fold_batches:
  "fold (\<lambda>batch st. fold f batch st) bs st = fold f (concat bs) st"
  by (induction bs arbitrary: st) simp_all

lemma key_in_update: "filter (\<lambda>e. fst e = k) (AList.update k v al) \<noteq> []"
  by (induction al) auto

lemma insert_on_conflict_schema:
  assumes "insert_on_conflict db pk t cols = Inr (t', returned)"
  shows "rt_columns t' = rt_columns t" and "rt_pk t' = rt_pk t"
    and "rt_id_nullable t' = rt_id_nullable t"
  using assms
  by (auto simp: insert_on_conflict_def Let_def split: option.splits if_splits)

lemma insert_on_conflict_key:
  assumes "insert_on_conflict db pk t cols = Inr (t', returned)"
      and "\<not> is_null (conflict_key db pk t cols)"
  shows "returned = [readback db (conflict_key db pk t cols)]"
    and "count_key t' (conflict_key db pk t cols) > 0"
  using assms
  by (auto simp: insert_on_conflict_def count_key_def key_in_update Let_def
           split: option.splits if_splits)

lemma insert_on_conflict_null:
  assumes "insert_on_conflict db pk t cols = Inr (t', returned)"
      and "is_null (conflict_key db pk t cols)"
  shows "returned = [JNull]" and "accepts_null_key t"
  using assms
  by (auto simp: insert_on_conflict_def Let_def split: option.splits if_splits)

lemma count_key_null [simp]: "count_key t JNull = 0"
  by (simp add: count_key_def is_null_def)

lemma upload_record_by_presence:
  assumes "insert_on_conflict db pk (us_table st) (recordColumns (cleanRecord record))
             = Inr (t', returned)"
      and "check_error db t' (hd returned) = None"
  shows "upload_record db pk record st =
           (if count_key t' (hd returned) > 0
            then st\<lparr> us_table := t', us_matched := us_matched st + 1 \<rparr>
            else st\<lparr> us_table := t', us_uploaded := us_uploaded st + 1 \<rparr>)"
proof (cases "is_null (conflict_key db pk (us_table st) (recordColumns (cleanRecord record)))")
  case True
  from insert_on_conflict_null(1) [OF assms(1) True] assms show ?thesis
    by (simp add: upload_record_def)
next
  case False
  from insert_on_conflict_key(1) [OF assms(1) False] assms show ?thesis
    by (simp add: upload_record_def)
qed

lemma upload_record_matched:
  assumes "insert_on_conflict db pk (us_table st) (recordColumns (cleanRecord record))
             = Inr (t', returned)"
      and "check_error db t' (hd returned) = None"
      and "\<not> is_null (conflict_key db pk (us_table st) (recordColumns (cleanRecord record)))"
      and "readback db (conflict_key db pk (us_table st) (recordColumns (cleanRecord record)))
             = conflict_key db pk (us_table st) (recordColumns (cleanRecord record))"
  shows "upload_record db pk record st = st\<lparr> us_table := t', us_matched := us_matched st + 1 \<rparr>"
  using upload_record_by_presence [OF assms(1,2)]
        insert_on_conflict_key [OF assms(1) assms(3)] assms(4)
  by simp

lemma upload_record_uploaded:
  assumes "insert_on_conflict db pk (us_table st) (recordColumns (cleanRecord record))
             = Inr (t', returned)"
      and "check_error db t' (hd returned) = None"
      and "is_null (conflict_key db pk (us_table st) (recordColumns (cleanRecord record)))"
  shows "upload_record db pk record st = st\<lparr> us_table := t', us_uploaded := us_uploaded st + 1 \<rparr>"
  using upload_record_by_presence [OF assms(1,2)]
        insert_on_conflict_null(1) [OF assms(1) assms(3)]
  by simp

lemma upload_record_total:
  "us_uploaded (upload_record db pk r st) + us_matched (upload_record db pk r st)
     + length (us_errors (upload_record db pk r st))
   = Suc (us_uploaded st + us_matched st + length (us_errors st))"
proof (cases "insert_on_conflict db pk (us_table st) (recordColumns (cleanRecord r))")
  case (Inl msg)
  then show ?thesis by (simp add: upload_record_def)
next
  case (Inr w)
  obtain t' returned where w: "w = (t', returned)" by (cases w)
  show ?thesis
  proof (cases "is_null (conflict_key db pk (us_table st) (recordColumns (cleanRecord r)))")
    case True
    from insert_on_conflict_null(1) [OF Inr [unfolded w] True] Inr w show ?thesis
      by (simp add: upload_record_def split: option.splits)
  next
    case False
    from insert_on_conflict_key(1) [OF Inr [unfolded w] False] Inr w show ?thesis
      by (simp add: upload_record_def split: option.splits)
  qed
qed

lemma upload_record_schema:
  "rt_columns (us_table (upload_record db pk r st)) = rt_columns (us_table st)"
  "rt_pk (us_table (upload_record db pk r st)) = rt_pk (us_table st)"
  "rt_id_nullable (us_table (upload_record db pk r st)) = rt_id_nullable (us_table st)"
  by (auto simp: upload_record_def split: sum.splits list.splits option.splits
           dest: insert_on_conflict_schema)

lemma upload_fold_schema:
  "rt_columns (us_table (fold (upload_record db pk) rs st)) = rt_columns (us_table st)
   \<and> rt_pk (us_table (fold (upload_record db pk) rs st)) = rt_pk (us_table st)
   \<and> rt_id_nullable (us_table (fold (upload_record db pk) rs st)) = rt_id_nullable (us_table st)"
  by (induction rs arbitrary: st) (simp_all add: upload_record_schema)

lemma upload_fold_total:
  "us_uploaded (fold (upload_record db pk) rs st) + us_matched (fold (upload_record db pk) rs st)
     + length (us_errors (fold (upload_record db pk) rs st))
   = us_uploaded st + us_matched st + length (us_errors st) + length rs"
proof (induction rs arbitrary: st)
  case Nil
  then show ?case by simp
next
  case (Cons r rs)
  show ?case
    using Cons.IH [of "upload_record db pk r st"] upload_record_total [of db pk r st]
    by simp
qed

lemma carries_key_not_null:
  "carries_key pk record
     \<Longrightarrow> \<not> is_null (conflict_key db pk t (recordColumns (cleanRecord record)))"
  by (auto simp: carries_key_def conflict_key_def split: option.splits)

lemma upload_record_no_upload:
  assumes "\<forall>v. readback db v = v"
      and "\<not> accepts_null_key (us_table st) \<or> carries_key pk r"
  shows "us_uploaded (upload_record db pk r st) = us_uploaded st"
proof (cases "insert_on_conflict db pk (us_table st) (recordColumns (cleanRecord r))")
  case (Inl msg)
  then show ?thesis by (simp add: upload_record_def)
next
  case (Inr w)
  obtain t' returned where w: "w = (t', returned)" by (cases w)
  have key: "\<not> is_null (conflict_key db pk (us_table st) (recordColumns (cleanRecord r)))"
    using assms(2) insert_on_conflict_null(2) [OF Inr [unfolded w]] carries_key_not_null
    by blast
  from insert_on_conflict_key [OF Inr [unfolded w] key] assms(1) Inr w show ?thesis
    by (simp add: upload_record_def split: option.splits)
qed

lemma upload_fold_no_upload:
  assumes "\<forall>v. readback db v = v"
      and "\<not> accepts_null_key (us_table st) \<or> (\<forall>r\<in>set rs. carries_key pk r)"
  shows "us_uploaded (fold (upload_record db pk) rs st) = us_uploaded st"
  using assms(2)
proof (induction rs arbitrary: st)
  case Nil
  then show ?case by simp
next
  case (Cons r rs)
  have same: "accepts_null_key (us_table (upload_record db pk r st)) = accepts_null_key (us_table st)"
    by (simp add: accepts_null_key_def upload_record_schema)
  have "us_uploaded (fold (upload_record db pk) rs (upload_record db pk r st))
          = us_uploaded (upload_record db pk r st)"
    using Cons.prems same by (intro Cons.IH) auto
  moreover have "us_uploaded (upload_record db pk r st) = us_uploaded st"
    using Cons.prems by (intro upload_record_no_upload [OF assms(1)]) auto
  ultimately show ?case by simp
qed

lemma uploadTableRecords_counts:
  assumes "uploadTableRecords db (Remote t) tableName records = Inr (res, r')"
  shows "uploadedRecords res + matchedRecords res + length (errors res) = length records"
    and "totalRecords res = length records"
    and "(\<forall>v. readback db v = v)
         \<and> (\<not> accepts_null_key t \<or> (\<forall>r\<in>set records. carries_key (conflict_column t) r))
         \<longrightarrow> uploadedRecords res = 0"
proof -
  let ?start = "\<lparr> us_uploaded = 0, us_matched = 0, us_errors = [], us_table = t \<rparr>"
  let ?final = "fold (upload_record db (conflict_column t)) records ?start"
  show "uploadedRecords res + matchedRecords res + length (errors res) = length records"
    using assms upload_fold_total [of db "conflict_column t" records ?start]
    by (auto simp: uploadTableRecords_def Let_def fold_batches concat_batches
             split: if_splits)
  show "totalRecords res = length records"
    using assms
    by (auto simp: uploadTableRecords_def Let_def split: if_splits)
  show "(\<forall>v. readback db v = v)
         \<and> (\<not> accepts_null_key t \<or> (\<forall>r\<in>set records. carries_key (conflict_column t) r))
         \<longrightarrow> uploadedRecords res = 0"
  proof
    assume h: "(\<forall>v. readback db v = v)
         \<and> (\<not> accepts_null_key t \<or> (\<forall>r\<in>set records. carries_key (conflict_column t) r))"
    then have "us_uploaded ?final = us_uploaded ?start"
      by (intro upload_fold_no_upload) simp_all
    with assms show "uploadedRecords res = 0"
      by (auto simp: uploadTableRecords_def Let_def fold_batches concat_batches
               split: if_splits)
  qed
qed

lemma uploadTableRecords_schema:
  assumes "uploadTableRecords db (Remote t) tableName records = Inr (res1, r1)"
  shows "\<exists>t1. r1 = Remote t1 \<and> rt_columns t1 = rt_columns t \<and> rt_pk t1 = rt_pk t
              \<and> rt_id_nullable t1 = rt_id_nullable t"
  using assms upload_fold_schema [of db "conflict_column t" records
          "\<lparr> us_uploaded = 0, us_matched = 0, us_errors = [], us_table = t \<rparr>"]
  by (auto simp: uploadTableRecords_def Let_def fold_batches concat_batches
           split: if_splits)

lemma uploadTableRecords_returns_again:
  assumes "records \<noteq> []" and "uploadTableRecords db (Remote t) tableName records = Inr (res1, r1)"
  shows "\<exists>res2 r2. uploadTableRecords db r1 tableName records = Inr (res2, r2)"
proof -
  from assms have cols: "rt_columns t \<noteq> []"
    by (auto simp: uploadTableRecords_def split: if_splits)
  from uploadTableRecords_schema [OF assms(2)] obtain t1
    where "r1 = Remote t1" and "rt_columns t1 = rt_columns t" by blast
  with cols assms(1) show ?thesis
    by (simp add: uploadTableRecords_def Let_def)
qed

lemma upload_widgets_first_run:
  "uploadTableRecords plain_pg widgets_empty ''widgets'' widget_records
     = Inr (\<lparr>totalRecords = 2, uploadedRecords = 0, matchedRecords = 2, errors = []\<rparr>,
            widgets_uploaded)"
  by (simp add: uploadTableRecords_def batches_def upload_record_def insert_on_conflict_def
        cleanRecord_def recordColumns_def count_key_def conflict_key_def is_null_def
        conflict_column_def Let_def
        plain_pg_def widgets_empty_def widgets_uploaded_def widget_records_def)

lemma upload_widgets_second_run:
  "uploadTableRecords plain_pg widgets_uploaded ''widgets'' widget_records
     = Inr (\<lparr>totalRecords = 2, uploadedRecords = 0, matchedRecords = 2, errors = []\<rparr>,
            widgets_uploaded)"
  by (simp add: uploadTableRecords_def batches_def upload_record_def insert_on_conflict_def
        cleanRecord_def recordColumns_def count_key_def conflict_key_def is_null_def
        conflict_column_def Let_def merge_row_def
        plain_pg_def widgets_uploaded_def widget_records_def)

lemma upload_notes_first_run:
  "uploadTableRecords plain_pg (notes_table []) ''notes'' note_records
     = Inr (\<lparr>totalRecords = 2, uploadedRecords = 1, matchedRecords = 1, errors = []\<rparr>,
            notes_table notes_after_one_run)"
  by (simp add: uploadTableRecords_def batches_def upload_record_def insert_on_conflict_def
        cleanRecord_def recordColumns_def count_key_def conflict_key_def is_null_def
        conflict_column_def accepts_null_key_def Let_def
        plain_pg_def notes_table_def notes_after_one_run_def note_records_def)

lemma upload_notes_second_run:
  "uploadTableRecords plain_pg (notes_table notes_after_one_run) ''notes'' note_records
     = Inr (\<lparr>totalRecords = 2, uploadedRecords = 1, matchedRecords = 1, errors = []\<rparr>,
            notes_table notes_after_two_runs)"
  by (simp add: uploadTableRecords_def batches_def upload_record_def insert_on_conflict_def
        cleanRecord_def recordColumns_def count_key_def conflict_key_def is_null_def
        conflict_column_def accepts_null_key_def Let_def merge_row_def
        plain_pg_def notes_table_def notes_after_one_run_def notes_after_two_runs_def
        note_records_def)

text \<open>
  C7, as the claim states it, fails. The table \<open>notes\<close> has no primary key, so the
  conflict column is \<open>id\<close>, which has a unique index and admits \<open>NULL\<close>. The mirror
  holds a row without an id. Every run inserts that row once more, the statement
  returns \<open>null\<close>, the presence test with \<open>NULL\<close> counts no row, and the row is reported
  as uploaded: the second run over the same two rows reports \<open>uploadedRecords = 1\<close> and
  \<open>matchedRecords = 1\<close> with no per-row error.
\<close>

theorem upload_second_run_counterexample:
  "uploadTableRecords plain_pg (notes_table []) ''notes'' note_records
     = Inr (\<lparr>totalRecords = 2, uploadedRecords = 1, matchedRecords = 1, errors = []\<rparr>,
            notes_table notes_after_one_run)
   \<and> uploadTableRecords plain_pg (notes_table notes_after_one_run) ''notes'' note_records
     = Inr (\<lparr>totalRecords = 2, uploadedRecords = 1, matchedRecords = 1, errors = []\<rparr>,
            notes_table notes_after_two_runs)
   \<and> length note_records = 2"
  using upload_notes_first_run upload_notes_second_run by (simp add: note_records_def)

text \<open>
  C7 (amended): after a run of \<open>uploadTableRecords\<close> over a non-empty list of \<open>N\<close>
  mirror rows has returned, a second run over the same rows, started from the remote
  state the first run left, returns too, and each row is counted exactly once, as
  uploaded, as matched or in the error list. If the driver reads every key back
  unchanged and either the remote table does not admit \<open>NULL\<close> in its conflict column
  (it has a primary key, or its \<open>id\<close> column is declared not null) or every row supplies
  a value other than \<open>NULL\<close> for that column, then the second run reports
  \<open>uploadedRecords = 0\<close> and, without per-row errors, \<open>matchedRecords = N\<close>.
\<close>

theorem upload_second_run_matched_unless_null_key:
  assumes "records \<noteq> []"
    and "uploadTableRecords db (Remote t) tableName records = Inr (res1, r1)"
  shows "\<exists>res2 r2. uploadTableRecords db r1 tableName records = Inr (res2, r2)
           \<and> totalRecords res2 = length records
           \<and> uploadedRecords res2 + matchedRecords res2 + length (errors res2) = length records
           \<and> ((\<forall>v. readback db v = v)
               \<and> (\<not> accepts_null_key t
                   \<or> (\<forall>r\<in>set records. carries_key (conflict_column t) r))
              \<longrightarrow> uploadedRecords res2 = 0
                  \<and> (errors res2 = [] \<longrightarrow> matchedRecords res2 = length records))"
proof -
  from uploadTableRecords_schema [OF assms(2)] obtain t1 where
    r1: "r1 = Remote t1" and pk: "rt_pk t1 = rt_pk t"
    and nullable: "rt_id_nullable t1 = rt_id_nullable t" by blast
  from uploadTableRecords_returns_again [OF assms] r1 obtain res2 r2 where
    run2: "uploadTableRecords db (Remote t1) tableName records = Inr (res2, r2)" by blast
  have same: "accepts_null_key t1 = accepts_null_key t" "conflict_column t1 = conflict_column t"
    using pk nullable by (simp_all add: accepts_null_key_def conflict_column_def)
  from uploadTableRecords_counts [OF run2] run2 r1 same show ?thesis
    by auto
qed

theorem upload_second_run_matched_unless_null_key_witness:
  "widget_records \<noteq> []
   \<and> uploadTableRecords plain_pg widgets_empty ''widgets'' widget_records
       = Inr (\<lparr>totalRecords = 2, uploadedRecords = 0, matchedRecords = 2, errors = []\<rparr>,
              widgets_uploaded)
   \<and> (\<exists>res2 r2. uploadTableRecords plain_pg widgets_uploaded ''widgets'' widget_records
                    = Inr (res2, r2)
           \<and> uploadedRecords res2 = 0 \<and> errors res2 = []
           \<and> matchedRecords res2 = length widget_records)"
  using upload_second_run_matched_unless_null_key
          [OF _ upload_widgets_first_run [unfolded widgets_empty_def]]
        upload_widgets_first_run upload_widgets_second_run
  by (simp add: widget_records_def)

text \<open>
  C8, as the claim states it, fails: the presence test compares with the key the
  statement returned, and a comparison with \<open>NULL\<close> finds nothing. A row without an id,
  written to a table whose conflict column is the \<open>id\<close> fallback and admits \<open>NULL\<close>, is
  written and reported as uploaded.
\<close>

theorem upload_null_key_counterexample:
  "uploadTableRecords plain_pg (notes_table []) ''notes''
       [[(''id'', JNull), (''body'', JStr ''memo'')]]
     = Inr (\<lparr>totalRecords = 1, uploadedRecords = 1, matchedRecords = 0, errors = []\<rparr>,
            notes_table [(JNull, [(''id'', JNull), (''body'', JStr ''memo'')])])"
  by (simp add: uploadTableRecords_def batches_def upload_record_def insert_on_conflict_def
        cleanRecord_def recordColumns_def count_key_def conflict_key_def is_null_def
        conflict_column_def accepts_null_key_def Let_def
        plain_pg_def notes_table_def)

text \<open>
  C8 (amended): the presence test runs on the table the write has just changed. For a
  record whose statement and presence test both succeed, exactly one counter goes up by
  one: \<open>matchedRecords\<close> when the test finds the returned key, \<open>uploadedRecords\<close>
  otherwise. A row written under a key other than \<open>NULL\<close> that the driver reads back
  unchanged is found, so it counts as matched, whether a row with its key existed before
  or not; a row written with \<open>NULL\<close> in the conflict column counts as uploaded. In every
  run that returns, each record is counted exactly once, as uploaded, as matched or in
  the error list; and \<open>uploadedRecords\<close> is 0 if the driver reads every key back
  unchanged and either the table does not admit \<open>NULL\<close> in its conflict column or every
  record supplies a value other than \<open>NULL\<close> for it.
\<close>

theorem upload_written_row_matched_unless_null_key:
  "(insert_on_conflict db pk (us_table st) (recordColumns (cleanRecord record)) = Inr (t', returned)
      \<and> check_error db t' (hd returned) = None
      \<longrightarrow> upload_record db pk record st =
            (if count_key t' (hd returned) > 0
             then st\<lparr> us_table := t', us_matched := us_matched st + 1 \<rparr>
             else st\<lparr> us_table := t', us_uploaded := us_uploaded st + 1 \<rparr>)
        \<and> (\<not> is_null (conflict_key db pk (us_table st) (recordColumns (cleanRecord record)))
            \<and> readback db (conflict_key db pk (us_table st) (recordColumns (cleanRecord record)))
                = conflict_key db pk (us_table st) (recordColumns (cleanRecord record))
           \<longrightarrow> upload_record db pk record st
                 = st\<lparr> us_table := t', us_matched := us_matched st + 1 \<rparr>)
        \<and> (is_null (conflict_key db pk (us_table st) (recordColumns (cleanRecord record)))
           \<longrightarrow> upload_record db pk record st
                 = st\<lparr> us_table := t', us_uploaded := us_uploaded st + 1 \<rparr>))
   \<and> (uploadTableRecords db (Remote t) tableName records = Inr (res, r')
      \<longrightarrow> uploadedRecords res + matchedRecords res + length (errors res) = length records
          \<and> ((\<forall>v. readback db v = v)
              \<and> (\<not> accepts_null_key t
                  \<or> (\<forall>r\<in>set records. carries_key (conflict_column t) r))
             \<longrightarrow> uploadedRecords res = 0))"
  using upload_record_by_presence [of db pk st "record" t' returned]
        upload_record_matched [of db pk st "record" t' returned]
        upload_record_uploaded [of db pk st "record" t' returned]
        uploadTableRecords_counts(1,3) [of db t tableName records res r']
  by blast

text \<open>
  A new row with id 1 written to the empty table \<open>widgets\<close> counts as matched; a row
  without an id written to the empty table \<open>notes\<close> counts as uploaded; and the run over
  the two rows of \<open>widgets\<close>, none of which existed before, reports no row as uploaded.
\<close>

theorem upload_written_row_matched_unless_null_key_witness:
  "upload_record plain_pg ''id'' [(''id'', JNum ''1''), (''name'', JStr ''bolt'')]
       \<lparr> us_uploaded = 0, us_matched = 0, us_errors = [],
         us_table = \<lparr> rt_columns = [''id'', ''name''], rt_pk = Some ''id'',
                      rt_id_nullable = False, rt_rows = [] \<rparr> \<rparr>
     = \<lparr> us_uploaded = 0, us_matched = 1, us_errors = [],
         us_table = \<lparr> rt_columns = [''id'', ''name''], rt_pk = Some ''id'',
              rt_id_nullable = False,
              rt_rows = [(JNum ''1'', [(''id'', JNum ''1''), (''name'', JStr ''bolt'')])] \<rparr> \<rparr>
   \<and> upload_record plain_pg ''id'' [(''id'', JNull), (''body'', JStr ''memo'')]
       \<lparr> us_uploaded = 0, us_matched = 0, us_errors = [],
         us_table = \<lparr> rt_columns = [''id'', ''body''], rt_pk = None,
                      rt_id_nullable = True, rt_rows = [] \<rparr> \<rparr>
     = \<lparr> us_uploaded = 1, us_matched = 0, us_errors = [],
         us_table = \<lparr> rt_columns = [''id'', ''body''], rt_pk = None,
              rt_id_nullable = True,
              rt_rows = [(JNull, [(''id'', JNull), (''body'', JStr ''memo'')])] \<rparr> \<rparr>
   \<and> uploadTableRecords plain_pg widgets_empty ''widgets'' widget_records
     = Inr (\<lparr>totalRecords = 2, uploadedRecords = 0, matchedRecords = 2, errors = []\<rparr>,
            widgets_uploaded)"
proof -
  have written: "insert_on_conflict plain_pg ''id''
       \<lparr> rt_columns = [''id'', ''name''], rt_pk = Some ''id'', rt_id_nullable = False,
         rt_rows = [] \<rparr>
       (recordColumns (cleanRecord [(''id'', JNum ''1''), (''name'', JStr ''bolt'')]))
     = Inr (\<lparr> rt_columns = [''id'', ''name''], rt_pk = Some ''id'', rt_id_nullable = False,
              rt_rows = [(JNum ''1'', [(''id'', JNum ''1''), (''name'', JStr ''bolt'')])] \<rparr>,
            [JNum ''1''])"
    by (simp add: insert_on_conflict_def plain_pg_def cleanRecord_def recordColumns_def
          conflict_key_def is_null_def Let_def)
  have written_null: "insert_on_conflict plain_pg ''id''
       \<lparr> rt_columns = [''id'', ''body''], rt_pk = None, rt_id_nullable = True, rt_rows = [] \<rparr>
       (recordColumns (cleanRecord [(''id'', JNull), (''body'', JStr ''memo'')]))
     = Inr (\<lparr> rt_columns = [''id'', ''body''], rt_pk = None, rt_id_nullable = True,
              rt_rows = [(JNull, [(''id'', JNull), (''body'', JStr ''memo'')])] \<rparr>,
            [JNull])"
    by (simp add: insert_on_conflict_def plain_pg_def cleanRecord_def recordColumns_def
          conflict_key_def is_null_def accepts_null_key_def Let_def)
  have keys: "conflict_key plain_pg ''id''
       \<lparr> rt_columns = [''id'', ''name''], rt_pk = Some ''id'', rt_id_nullable = False,
         rt_rows = [] \<rparr>
       (recordColumns (cleanRecord [(''id'', JNum ''1''), (''name'', JStr ''bolt'')])) = JNum ''1''"
    "conflict_key plain_pg ''id''
       \<lparr> rt_columns = [''id'', ''body''], rt_pk = None, rt_id_nullable = True, rt_rows = [] \<rparr>
       (recordColumns (cleanRecord [(''id'', JNull), (''body'', JStr ''memo'')])) = JNull"
    by (simp_all add: conflict_key_def cleanRecord_def recordColumns_def)
  have checks: "check_error plain_pg t v = None" "readback plain_pg v = v" for t v
    by (simp_all add: plain_pg_def)
  show ?thesis
    using upload_written_row_matched_unless_null_key [of plain_pg "''id''"
          "\<lparr> us_uploaded = 0, us_matched = 0, us_errors = [],
             us_table = \<lparr> rt_columns = [''id'', ''name''], rt_pk = Some ''id'',
                          rt_id_nullable = False, rt_rows = [] \<rparr> \<rparr>"
          "[(''id'', JNum ''1''), (''name'', JStr ''bolt'')]"
          "\<lparr> rt_columns = [''id'', ''name''], rt_pk = Some ''id'', rt_id_nullable = False,
              rt_rows = [(JNum ''1'', [(''id'', JNum ''1''), (''name'', JStr ''bolt'')])] \<rparr>"
          "[JNum ''1'']"]
        upload_written_row_matched_unless_null_key [of plain_pg "''id''"
          "\<lparr> us_uploaded = 0, us_matched = 0, us_errors = [],
             us_table = \<lparr> rt_columns = [''id'', ''body''], rt_pk = None,
                          rt_id_nullable = True, rt_rows = [] \<rparr> \<rparr>"
          "[(''id'', JNull), (''body'', JStr ''memo'')]"
          "\<lparr> rt_columns = [''id'', ''body''], rt_pk = None, rt_id_nullable = True,
              rt_rows = [(JNull, [(''id'', JNull), (''body'', JStr ''memo'')])] \<rparr>"
          "[JNull]"]
        upload_widgets_first_run written written_null keys checks
    by (simp add: is_null_def count_key_def)
qed

section \<open>Properties of the backup direction\<close>

lemma sanitize_idem [simp]: "sanitize (sanitize s) = sanitize s"
  by (simp add: sanitize_def)

lemma sanitize_columnNames: "c \<in> set (columnNames columns) \<Longrightarrow> sanitize c = c"
  by (auto simp: columnNames_def)

lemma select_error_indep:
  "select_id_where db S conds rows = Inl msg \<Longrightarrow> select_id_where db S conds rows' = Inl msg"
  by (auto simp: select_id_where_def split: if_splits sum.splits)

lemma select_found_mono:
  assumes "select_id_where db S conds rows = Inr ex" and "ex \<noteq> []"
  shows "\<exists>ex'. select_id_where db S conds (rows @ N) = Inr ex' \<and> ex' \<noteq> []"
  using assms
  by (cases "filter (projr (eval_conds db S conds)) rows")
     (auto simp: select_id_where_def split: if_splits sum.splits)

lemma insert_error_indep:
  "insert_into db S as rows = Inl msg \<Longrightarrow> insert_into db S as rows' = Inl msg"
  by (auto simp: insert_into_def split: if_splits sum.splits)

lemma insert_appends:
  "insert_into db S as rows = Inr rows' \<Longrightarrow> \<exists>sr. read_values db S as = Inr sr \<and> rows' = rows @ [sr]"
  by (auto simp: insert_into_def split: if_splits sum.splits)

lemma read_values_Cons:
  assumes "read_values db S ((c, v) # rest) = Inr sr"
  shows "\<exists>ty w sr'. map_of S c = Some ty \<and> sr = (c, w) # sr' \<and> read_values db S rest = Inr sr'
           \<and> (case v of None \<Rightarrow> w = None | Some t \<Rightarrow> \<exists>x. pg_input db ty t = Inr x \<and> w = Some x)"
  using assms by (auto split: option.splits sum.splits)

lemma read_values_lookup:
  assumes "read_values db S (map (\<lambda>c. (c, v c)) cn) = Inr sr" and "c \<in> set cn"
  shows "\<exists>ty. map_of S c = Some ty \<and>
           (case v c of None \<Rightarrow> stored_value sr c = None
            | Some t \<Rightarrow> \<exists>w. pg_input db ty t = Inr w \<and> stored_value sr c = Some w)"
  using assms
proof (induction cn arbitrary: sr)
  case Nil
  then show ?case by simp
next
  case (Cons a cn)
  from Cons.prems(1) have "read_values db S ((a, v a) # map (\<lambda>c. (c, v c)) cn) = Inr sr"
    by simp
  from read_values_Cons [OF this] obtain ty w sr' where
    ty: "map_of S a = Some ty" and sr: "sr = (a, w) # sr'"
    and rest: "read_values db S (map (\<lambda>c. (c, v c)) cn) = Inr sr'"
    and w: "(case v a of None \<Rightarrow> w = None | Some t \<Rightarrow> \<exists>x. pg_input db ty t = Inr x \<and> w = Some x)"
    by blast
  show ?case
  proof (cases "c = a")
    case True
    with ty sr w show ?thesis
      by (auto simp: stored_value_def split: option.splits)
  next
    case False
    with Cons.prems(2) have "c \<in> set cn" by simp
    moreover have "stored_value sr c = stored_value sr' c"
      using False sr by (simp add: stored_value_def)
    ultimately show ?thesis using Cons.IH [OF rest] by (auto split: option.splits)
  qed
qed

lemma eval_conds_holds:
  assumes "eval_conds db S (map (\<lambda>c. case v c of None \<Rightarrow> IsNull c | Some t \<Rightarrow> Equals c t) cn') = Inr p"
    and "\<And>c. c \<in> set cn' \<Longrightarrow> \<exists>ty. map_of S c = Some ty \<and>
           (case v c of None \<Rightarrow> stored_value sr c = None
            | Some t \<Rightarrow> \<exists>w. pg_input db ty t = Inr w \<and> stored_value sr c = Some w)"
  shows "p sr"
  using assms
proof (induction cn' arbitrary: p)
  case Nil
  then show ?case by auto
next
  case (Cons a cn')
  from Cons.prems(2) [of a] obtain ty where ty: "map_of S a = Some ty"
    and va: "(case v a of None \<Rightarrow> stored_value sr a = None
            | Some t \<Rightarrow> \<exists>w. pg_input db ty t = Inr w \<and> stored_value sr a = Some w)"
    by auto
  from Cons.prems(1) obtain q q' where
    q: "eval_cond db S (case v a of None \<Rightarrow> IsNull a | Some t \<Rightarrow> Equals a t) = Inr q"
    and q': "eval_conds db S (map (\<lambda>c. case v c of None \<Rightarrow> IsNull c | Some t \<Rightarrow> Equals c t) cn') = Inr q'"
    and p: "p = (\<lambda>r. q r \<and> q' r)"
    by (auto split: sum.splits)
  have "q' sr" using Cons.IH [OF q'] Cons.prems(2) by simp
  moreover have "q sr" using q ty va
    by (auto simp: eval_cond_def split: option.splits sum.splits)
  ultimately show ?case using p by simp
qed


lemma select_shape:
  "(\<exists>msg. \<forall>rows. select_id_where db S Q rows = Inl msg)
   \<or> (\<exists>p. eval_conds db S Q = Inr p \<and> map_of S ''id'' \<noteq> None
          \<and> (\<forall>rows. select_id_where db S Q rows = Inr (take 1 (filter p rows))))"
proof (cases "Q = []")
  case True
  then show ?thesis by (simp add: select_id_where_def)
next
  case nonempty: False
  show ?thesis
  proof (cases "map_of S ''id''")
    case None
    with nonempty show ?thesis by (simp add: select_id_where_def)
  next
    case (Some ty)
    show ?thesis
    proof (cases "eval_conds db S Q")
      case (Inl msg)
      with nonempty Some show ?thesis by (simp add: select_id_where_def)
    next
      case (Inr p)
      with nonempty Some show ?thesis by (simp add: select_id_where_def)
    qed
  qed
qed

lemma insert_shape:
  "(\<exists>msg. \<forall>rows. insert_into db S A rows = Inl msg)
   \<or> (\<exists>sr. read_values db S A = Inr sr \<and> (\<forall>rows. insert_into db S A rows = Inr (rows @ [sr])))"
proof (cases "A = []")
  case True
  then show ?thesis by (simp add: insert_into_def)
next
  case False
  then show ?thesis
    by (cases "read_values db S A") (simp_all add: insert_into_def)
qed

lemma insertAssignments_eq:
  "insertAssignments columns r = map (\<lambda>c. (c, sql_text (get_prop r c))) (columnNames columns)"
  by (simp add: insertAssignments_def sanitize_columnNames)

lemma checkQuery_all_eq:
  "map (\<lambda>col. case sql_text (get_prop r col) of None \<Rightarrow> IsNull (sanitize col)
                    | Some t \<Rightarrow> Equals (sanitize col) t) (columnNames columns)
   = map (\<lambda>c. case sql_text (get_prop r c) of None \<Rightarrow> IsNull c | Some t \<Rightarrow> Equals c t) (columnNames columns)"
  by (rule map_cong) (simp_all add: sanitize_columnNames cong: option.case_cong)

lemma id_in_columnNames:
  assumes "hasIdColumn columns" and "map_of (mirror_schema columns) ''id'' = Some ty"
  shows "''id'' \<in> set (columnNames columns)"
proof -
  have "map_of (map (\<lambda>col. (sanitize (col_name col), mirror_type (col_type col))) columns) ''id'' \<noteq> None"
    using assms by (auto simp: mirror_schema_def map_add_def split: option.splits)
  then show ?thesis
    by (auto simp: map_of_eq_None_iff columnNames_def image_iff)
qed

lemma sql_text_Some: "v \<noteq> JNull \<Longrightarrow> v \<noteq> JUndefined \<Longrightarrow> \<exists>t. sql_text v = Some t"
  by (cases v) (simp_all add: sql_text_def)

lemma self_match:
  assumes ec: "eval_conds db (mirror_schema columns) (checkQuery columns r) = Inr p"
    and idc: "map_of (mirror_schema columns) ''id'' \<noteq> None"
    and rv: "read_values db (mirror_schema columns) (insertAssignments columns r) = Inr sr"
  shows "p sr"
proof (cases "hasIdColumn columns \<and> get_prop r ''id'' \<noteq> JNull \<and> get_prop r ''id'' \<noteq> JUndefined")
  case True
  then obtain t where t: "sql_text (get_prop r ''id'') = Some t"
    using sql_text_Some by blast
  from idc obtain ty where ty: "map_of (mirror_schema columns) ''id'' = Some ty" by auto
  from True t have Q: "checkQuery columns r = [Equals ''id'' t]"
    by (simp add: checkQuery_def)
  from ec Q ty obtain w where w: "pg_input db ty t = Inr w" and p: "p = (\<lambda>r. stored_value r ''id'' = Some w \<and> True)"
    by (auto simp: eval_cond_def split: sum.splits)
  have "''id'' \<in> set (columnNames columns)"
    using True ty by (simp add: id_in_columnNames)
  from read_values_lookup [OF rv [unfolded insertAssignments_eq] this] t ty w
  have "stored_value sr ''id'' = Some w" by auto
  with p show ?thesis by simp
next
  case False
  then have Q: "checkQuery columns r =
      map (\<lambda>c. case sql_text (get_prop r c) of None \<Rightarrow> IsNull c | Some t \<Rightarrow> Equals c t) (columnNames columns)"
    unfolding checkQuery_def using checkQuery_all_eq [of r columns] by auto
  show ?thesis
    by (rule eval_conds_holds [OF ec [unfolded Q]])
       (rule read_values_lookup [OF rv [unfolded insertAssignments_eq]])
qed


lemma backup_row_try_modes:
  "(\<exists>msg. \<forall>st. backup_row_try db columns r st = Inl msg)
   \<or> (\<exists>p msg. \<forall>st. backup_row_try db columns r st =
          (if filter p (bs_rows st) \<noteq> [] then Inr (st\<lparr> bs_skipped := bs_skipped st + 1 \<rparr>)
           else Inl msg))
   \<or> (\<exists>p sr. p sr \<and> (\<forall>st. backup_row_try db columns r st =
          (if filter p (bs_rows st) \<noteq> [] then Inr (st\<lparr> bs_skipped := bs_skipped st + 1 \<rparr>)
           else Inr (st\<lparr> bs_rows := bs_rows st @ [sr], bs_inserted := bs_inserted st + 1 \<rparr>))))"
proof -
  let ?S = "mirror_schema columns"
  let ?Q = "checkQuery columns r"
  let ?A = "insertAssignments columns r"
  from select_shape [of db ?S ?Q] show ?thesis
  proof
    assume "\<exists>msg. \<forall>rows. select_id_where db ?S ?Q rows = Inl msg"
    then show ?thesis by (auto simp: backup_row_try_def)
  next
    assume "\<exists>p. eval_conds db ?S ?Q = Inr p \<and> map_of ?S ''id'' \<noteq> None
          \<and> (\<forall>rows. select_id_where db ?S ?Q rows = Inr (take 1 (filter p rows)))"
    then obtain p where ec: "eval_conds db ?S ?Q = Inr p" and idc: "map_of ?S ''id'' \<noteq> None"
      and sel: "\<And>rows. select_id_where db ?S ?Q rows = Inr (take 1 (filter p rows))"
      by blast
    have nonempty: "(0 < length (take 1 (filter p rows))) = (filter p rows \<noteq> [])" for rows
      by (cases "filter p rows") simp_all
    from insert_shape [of db ?S ?A] show ?thesis
    proof
      assume "\<exists>msg. \<forall>rows. insert_into db ?S ?A rows = Inl msg"
      then obtain msg where ins: "\<And>rows. insert_into db ?S ?A rows = Inl msg" by blast
      have "\<forall>st. backup_row_try db columns r st =
          (if filter p (bs_rows st) \<noteq> [] then Inr (st\<lparr> bs_skipped := bs_skipped st + 1 \<rparr>)
           else Inl msg)"
        by (simp add: backup_row_try_def sel ins nonempty)
      then show ?thesis by blast
    next
      assume "\<exists>sr. read_values db ?S ?A = Inr sr \<and> (\<forall>rows. insert_into db ?S ?A rows = Inr (rows @ [sr]))"
      then obtain sr where rv: "read_values db ?S ?A = Inr sr"
        and ins: "\<And>rows. insert_into db ?S ?A rows = Inr (rows @ [sr])" by blast
      have "p sr" by (rule self_match [OF ec idc rv])
      moreover have "\<forall>st. backup_row_try db columns r st =
          (if filter p (bs_rows st) \<noteq> [] then Inr (st\<lparr> bs_skipped := bs_skipped st + 1 \<rparr>)
           else Inr (st\<lparr> bs_rows := bs_rows st @ [sr], bs_inserted := bs_inserted st + 1 \<rparr>))"
        by (simp add: backup_row_try_def sel ins nonempty)
      ultimately show ?thesis by blast
    qed
  qed
qed

lemma backup_row_settled:
  fixes st :: backup_state
  shows "\<exists>c. backup_row db columns r
                \<lparr> bs_inserted = i, bs_skipped = s, bs_rows = bs_rows (backup_row db columns r st) @ N \<rparr>
              = \<lparr> bs_inserted = i, bs_skipped = s + c, bs_rows = bs_rows (backup_row db columns r st) @ N \<rparr>
            \<and> c \<le> 1
            \<and> bs_inserted (backup_row db columns r st) + bs_skipped (backup_row db columns r st)
                \<le> c + (bs_inserted st + bs_skipped st)"
  using backup_row_try_modes [of db columns r]
proof (elim disjE exE conjE)
  fix msg assume "\<forall>st. backup_row_try db columns r st = Inl msg"
  then show ?thesis
    by (intro exI [of _ "if is_duplicate_error msg then 1 else 0"]) (simp add: backup_row_def)
next
  fix p msg
  assume m: "\<forall>st. backup_row_try db columns r st =
          (if filter p (bs_rows st) \<noteq> [] then Inr (st\<lparr> bs_skipped := bs_skipped st + 1 \<rparr>)
           else Inl msg)"
  show ?thesis
  proof (cases "filter p (bs_rows st) \<noteq> []")
    case True
    then show ?thesis by (intro exI [of _ 1]) (simp add: backup_row_def m)
  next
    case False
    then show ?thesis
      by (intro exI [of _ "if filter p N \<noteq> [] \<or> is_duplicate_error msg then 1 else 0"])
         (simp add: backup_row_def m)
  qed
next
  fix p sr
  assume psr: "p sr" and m: "\<forall>st. backup_row_try db columns r st =
          (if filter p (bs_rows st) \<noteq> [] then Inr (st\<lparr> bs_skipped := bs_skipped st + 1 \<rparr>)
           else Inr (st\<lparr> bs_rows := bs_rows st @ [sr], bs_inserted := bs_inserted st + 1 \<rparr>))"
  show ?thesis
  proof (cases "filter p (bs_rows st) \<noteq> []")
    case True
    then show ?thesis by (intro exI [of _ 1]) (simp add: backup_row_def m)
  next
    case False
    then show ?thesis using psr by (intro exI [of _ 1]) (simp add: backup_row_def m)
  qed
qed

lemma backup_row_grows: "\<exists>N. bs_rows (backup_row db columns r st) = bs_rows st @ N"
  using backup_row_try_modes [of db columns r]
  by (elim disjE exE conjE) (auto simp: backup_row_def)

lemma backup_fold_grows: "\<exists>N. bs_rows (fold (backup_row db columns) data st) = bs_rows st @ N"
proof (induction data arbitrary: st)
  case Nil
  then show ?case by simp
next
  case (Cons r data)
  from backup_row_grows [of db columns r st] obtain N1 where
    "bs_rows (backup_row db columns r st) = bs_rows st @ N1" by blast
  moreover from Cons [of "backup_row db columns r st"] obtain N2 where
    "bs_rows (fold (backup_row db columns) data (backup_row db columns r st))
       = bs_rows (backup_row db columns r st) @ N2" by blast
  ultimately show ?case by simp
qed

lemma backup_rerun:
  fixes st :: backup_state
  shows "\<exists>k. fold (backup_row db columns) data
                \<lparr> bs_inserted = i, bs_skipped = s,
                  bs_rows = bs_rows (fold (backup_row db columns) data st) @ N \<rparr>
              = \<lparr> bs_inserted = i, bs_skipped = s + k,
                  bs_rows = bs_rows (fold (backup_row db columns) data st) @ N \<rparr>
            \<and> k \<le> length data
            \<and> bs_inserted (fold (backup_row db columns) data st)
                + bs_skipped (fold (backup_row db columns) data st)
                \<le> k + (bs_inserted st + bs_skipped st)"
proof (induction data arbitrary: st s)
  case Nil
  then show ?case by simp
next
  case (Cons r data)
  let ?st' = "backup_row db columns r st"
  let ?F = "fold (backup_row db columns) data ?st'"
  from backup_fold_grows [of db columns data ?st'] obtain N' where
    N': "bs_rows ?F = bs_rows ?st' @ N'" by blast
  from backup_row_settled [of db columns r i s st "N' @ N"] obtain c where
    c: "backup_row db columns r \<lparr> bs_inserted = i, bs_skipped = s, bs_rows = bs_rows ?F @ N \<rparr>
              = \<lparr> bs_inserted = i, bs_skipped = s + c, bs_rows = bs_rows ?F @ N \<rparr>"
    and c1: "c \<le> 1"
    and c2: "bs_inserted ?st' + bs_skipped ?st' \<le> c + (bs_inserted st + bs_skipped st)"
    by (auto simp: N')
  from Cons.IH [where st = ?st' and s = "s + c"] obtain k where
    k: "fold (backup_row db columns) data \<lparr> bs_inserted = i, bs_skipped = s + c, bs_rows = bs_rows ?F @ N \<rparr>
              = \<lparr> bs_inserted = i, bs_skipped = s + c + k, bs_rows = bs_rows ?F @ N \<rparr>"
    and k1: "k \<le> length data"
    and k2: "bs_inserted ?F + bs_skipped ?F \<le> k + (bs_inserted ?st' + bs_skipped ?st')"
    by blast
  show ?case
    by (intro exI [of _ "c + k"]) (use c c1 c2 k k1 k2 in \<open>simp add: add.assoc\<close>)
qed


lemma upsertTableData_rerun:
  assumes "upsertTableData db tableName data columns mirror = Inr (r1, mirror1)"
  shows "\<exists>r2 N. upsertTableData db tableName data columns mirror1 = Inr (r2, mirror1)
           \<and> mirror1 = Some ((case mirror of None \<Rightarrow> [] | Some rows \<Rightarrow> rows) @ N)
           \<and> inserted r2 = 0
           \<and> inserted r1 + skipped r1 \<le> skipped r2
           \<and> skipped r2 \<le> length data"
proof -
  from assms have ddl: "ddl_error db columns = None"
    by (auto simp: upsertTableData_def createTableIfNotExists_def split: option.splits)
  define rows0 where "rows0 = (case mirror of None \<Rightarrow> [] | Some rows \<Rightarrow> rows)"
  show ?thesis
  proof (cases "data = []")
    case True
    with assms ddl show ?thesis
      by (auto simp: upsertTableData_def createTableIfNotExists_def)
  next
    case False
    define st0 where "st0 = \<lparr> bs_inserted = 0, bs_skipped = 0, bs_rows = rows0 \<rparr>"
    define F where "F = fold (backup_row db columns) data st0"
    from assms ddl False have r1: "r1 = \<lparr> inserted = bs_inserted F, skipped = bs_skipped F \<rparr>"
      and m1: "mirror1 = Some (bs_rows F)"
      by (auto simp: upsertTableData_def createTableIfNotExists_def Let_def F_def st0_def rows0_def)
    from backup_fold_grows [of db columns data st0] obtain N where
      N: "bs_rows F = rows0 @ N" by (auto simp: F_def st0_def)
    from backup_rerun [of db columns data 0 0 st0 "[]"] obtain k where
      k: "fold (backup_row db columns) data \<lparr> bs_inserted = 0, bs_skipped = 0, bs_rows = bs_rows F \<rparr>
            = \<lparr> bs_inserted = 0, bs_skipped = k, bs_rows = bs_rows F \<rparr>"
      and k1: "k \<le> length data"
      and k2: "bs_inserted F + bs_skipped F \<le> k"
      by (auto simp: F_def st0_def)
    have "upsertTableData db tableName data columns mirror1
            = Inr (\<lparr> inserted = 0, skipped = k \<rparr>, mirror1)"
      using ddl False by (simp add: upsertTableData_def createTableIfNotExists_def Let_def m1 k)
    then show ?thesis
      using r1 m1 N k1 k2 by (auto simp: rows0_def)
  qed
qed

lemma backup_prices_first_run:
  "upsertTableData strict_numeric_pg ''prices'' price_rows price_columns None
     = Inr (\<lparr>inserted = 1, skipped = 0\<rparr>, Some [[(''id'', Some ''1''), (''price'', Some ''2.5'')]])"
  by code_simp

lemma backup_prices_second_run:
  "upsertTableData strict_numeric_pg ''prices'' price_rows price_columns
       (Some [[(''id'', Some ''1''), (''price'', Some ''2.5'')]])
     = Inr (\<lparr>inserted = 0, skipped = 2\<rparr>, Some [[(''id'', Some ''1''), (''price'', Some ''2.5'')]])"
  by code_simp

lemma backup_widgets_first_run:
  "upsertTableData strict_numeric_pg ''widgets'' widget_rows widget_columns None
     = Inr (\<lparr>inserted = 3, skipped = 0\<rparr>, Some widget_mirror)"
  by code_simp

lemma backup_widgets_second_run:
  "upsertTableData strict_numeric_pg ''widgets'' widget_rows widget_columns (Some widget_mirror)
     = Inr (\<lparr>inserted = 0, skipped = 3\<rparr>, Some widget_mirror)"
  by code_simp


text \<open>
  C1, as the claim states it, fails where the snapshot holds two rows with the same
  \<open>id\<close> and the first run drops one of them: of the two rows with id 1 the first is
  refused by the mirror (a non-duplicate error, so it is counted nowhere) and the second
  is inserted, giving \<open>inserted = 1, skipped = 0\<close>; the second run finds id 1 for both
  rows and reports \<open>skipped = 2\<close>, not 1.
\<close>

theorem backup_rerun_skipped_counterexample:
  "upsertTableData strict_numeric_pg ''prices'' price_rows price_columns None
     = Inr (\<lparr>inserted = 1, skipped = 0\<rparr>, Some [[(''id'', Some ''1''), (''price'', Some ''2.5'')]])
   \<and> upsertTableData strict_numeric_pg ''prices'' price_rows price_columns
       (Some [[(''id'', Some ''1''), (''price'', Some ''2.5'')]])
     = Inr (\<lparr>inserted = 0, skipped = 2\<rparr>, Some [[(''id'', Some ''1''), (''price'', Some ''2.5'')]])
   \<and> (2::nat) \<noteq> 1 + 0"
  using backup_prices_first_run backup_prices_second_run by simp

text \<open>
  C1 (amended): when a run of \<open>upsertTableData\<close> returns, a second run on the same
  rows and columns, started from the mirror the first run left, returns as well, inserts
  nothing and leaves the mirror as it is; its skipped count is at least the first run's
  inserted plus skipped and at most the number of rows, so the two are equal whenever the
  first run dropped no row. No run modifies or removes a row of the mirror: the mirror
  after a run is the mirror before it with the inserted rows appended.
\<close>

theorem backup_rerun_inserts_nothing:
  assumes "upsertTableData db tableName data columns mirror = Inr (r1, mirror1)"
  shows "\<exists>r2 N. upsertTableData db tableName data columns mirror1 = Inr (r2, mirror1)
           \<and> mirror1 = Some ((case mirror of None \<Rightarrow> [] | Some rows \<Rightarrow> rows) @ N)
           \<and> inserted r2 = 0
           \<and> inserted r1 + skipped r1 \<le> skipped r2
           \<and> skipped r2 \<le> length data
           \<and> (inserted r1 + skipped r1 = length data \<longrightarrow> skipped r2 = inserted r1 + skipped r1)"
  using upsertTableData_rerun [OF assms] by (elim exE conjE) (intro exI conjI, auto)

theorem backup_rerun_inserts_nothing_witness:
  "upsertTableData strict_numeric_pg ''widgets'' widget_rows widget_columns None
     = Inr (\<lparr>inserted = 3, skipped = 0\<rparr>, Some widget_mirror)
   \<and> (\<exists>r2 N. upsertTableData strict_numeric_pg ''widgets'' widget_rows widget_columns (Some widget_mirror)
                = Inr (r2, Some widget_mirror)
           \<and> Some widget_mirror = Some ([] @ N)
           \<and> inserted r2 = 0 \<and> skipped r2 = 3)"
  using backup_rerun_inserts_nothing [OF backup_widgets_first_run] backup_widgets_first_run
  by (auto simp: widget_rows_def)

lemma backup_row_try_counts:
  "backup_row_try db columns r st = Inr st' \<Longrightarrow>
     bs_inserted st' + bs_skipped st' = Suc (bs_inserted st + bs_skipped st)"
  by (auto simp: backup_row_try_def split: sum.splits if_splits)

lemma backup_row_counts:
  "bs_inserted (backup_row db columns r st) + bs_skipped (backup_row db columns r st)
     = bs_inserted st + bs_skipped st
       + (case backup_row_try db columns r st of
            Inl msg \<Rightarrow> if is_duplicate_error msg then 1 else 0
          | Inr st' \<Rightarrow> 1)"
  by (auto simp: backup_row_def dest: backup_row_try_counts split: sum.splits)


lemma backup_fold_counts_eq:
  assumes "\<And>r st msg. r \<in> set data \<Longrightarrow> backup_row_try db columns r st = Inl msg \<Longrightarrow> is_duplicate_error msg"
  shows "bs_inserted (fold (backup_row db columns) data st) + bs_skipped (fold (backup_row db columns) data st)
     = bs_inserted st + bs_skipped st + length data"
  using assms
proof (induction data arbitrary: st)
  case Nil
  then show ?case by simp
next
  case (Cons r data)
  have "bs_inserted (backup_row db columns r st) + bs_skipped (backup_row db columns r st)
          = Suc (bs_inserted st + bs_skipped st)"
    unfolding backup_row_counts using Cons.prems [of r st] by (simp split: sum.splits)
  moreover have "bs_inserted (fold (backup_row db columns) data (backup_row db columns r st))
      + bs_skipped (fold (backup_row db columns) data (backup_row db columns r st))
     = bs_inserted (backup_row db columns r st) + bs_skipped (backup_row db columns r st) + length data"
    by (rule Cons.IH) (use Cons.prems in auto)
  ultimately show ?case by simp
qed







end
